theory Spec2Isabelle
  imports Main
begin

section \<open>Data model\<close>

text \<open>
  The credential reconciliation engine of \<^verbatim>\<open>brave/core/key/model.py\<close>.
  A document held in memory (\<^verbatim>\<open>self\<close>, \<^verbatim>\<open>char\<close>) and the row stored for it are
  two things: a field assignment changes the first, \<^verbatim>\<open>save()\<close> copies it to the
  second. Every operation therefore takes the in-memory credential and the store
  and returns both, together with what the call returned or raised.
\<close>

type_synonym user = nat
type_synonym timestamp = nat

datatype exn =
    AttributeError
  | ValueError
  | TypeError
  | HTTPError int
  | RemoteError

text \<open>Values found in the payloads of the remote API client.\<close>

datatype pyval =
    PNone
  | PInt int
  | PStr string
  | PRows "(string \<times> pyval) list list"

type_synonym info = "string \<rightharpoonup> pyval"

fun truthy :: "pyval \<Rightarrow> bool" where
  "truthy PNone = False"
| "truthy (PInt i) = (i \<noteq> 0)"
| "truthy (PStr s) = (s \<noteq> [])"
| "truthy (PRows rs) = (rs \<noteq> [])"

text \<open>\<^verbatim>\<open>info.k\<close>: attribute access raises when the payload has no such field.\<close>

definition attr :: "info \<Rightarrow> string \<Rightarrow> exn + pyval" where
  "attr i k = (case i k of None \<Rightarrow> Inl AttributeError | Some v \<Rightarrow> Inr v)"

text \<open>The fields of \<^verbatim>\<open>EVECredential\<close>; \<open>cred_id\<close> is the document id, \<open>raw_mask\<close> is \<^verbatim>\<open>_mask\<close>.
  A credential always has an owner: deleting the owner cascades to the credential.\<close>

record EVECredential =
  cred_id :: nat
  key :: int
  code :: string
  kind :: "string option"
  raw_mask :: int
  verified :: bool
  expires :: "timestamp option"
  owner :: user
  violation :: "string option"
  modified :: timestamp

datatype keymask = EVECharacterKeyMask int | EVECorporationKeyMask int

text \<open>
  Modelled from the spec: \<^verbatim>\<open>EVECharacter\<close>, \<^verbatim>\<open>EVECorporation\<close> and \<^verbatim>\<open>EVEAlliance\<close> of
  \<^verbatim>\<open>brave.core.character.model\<close>, which is not part of the source at hand. The
  fields are those the credential code reads and writes (spec section 3); an
  identity is owned by zero or one account and lists the credentials that grant
  access to it. The unique \<^verbatim>\<open>identifier\<close> of a row is its key in the store.
\<close>

record EVECharacter =
  char_name :: pyval
  char_owner :: "user option"
  credentials :: "nat list"
  corporation :: "pyval option"
  alliance :: "pyval option"
  race :: pyval
  bloodline :: pyval
  ancestry :: pyval
  gender :: pyval
  security :: pyval
  titles :: "pyval list"
  roles :: "pyval list"

record EVECorporation =
  corp_name :: pyval
  corp_alliance :: "pyval option"

record EVEAlliance =
  alliance_name :: pyval

text \<open>The answer of \<^verbatim>\<open>api.account.APIKeyInfo\<close>: \<^verbatim>\<open>result['accessMask']\<close>, \<^verbatim>\<open>result['type']\<close>,
  \<^verbatim>\<open>result.get('expires')\<close> and \<^verbatim>\<open>result.characters.row\<close>.\<close>

record key_info =
  accessMask :: string
  key_type :: string
  key_expires :: "string option"
  characters_row :: "info list"

text \<open>
  What the module takes from outside: the two configuration entries, the
  capability-mask predicate and the endpoint masks of \<^verbatim>\<open>brave.core.util.eve\<close>, the
  remote API client (answers depend on the key and its secret code only),
  \<^verbatim>\<open>strip_tags\<close>, \<^verbatim>\<open>str\<close> on a value that is not text, \<^verbatim>\<open>datetime.strptime\<close> with the
  format of the source (\<open>None\<close> when it raises \<^verbatim>\<open>ValueError\<close>) and
  \<^verbatim>\<open>datetime.utcnow()\<close>.
\<close>

record env =
  recommended_key_mask :: string
  recommended_key_kind :: string
  has_access :: "keymask \<Rightarrow> int \<Rightarrow> bool"
  CharacterSheet_mask :: int
  CharacterInfoPublic_mask :: int
  APIKeyInfo :: "int \<Rightarrow> string \<Rightarrow> exn + key_info"
  CharacterSheet :: "int \<Rightarrow> string \<Rightarrow> pyval \<Rightarrow> exn + info"
  CharacterInfoPublic :: "int \<Rightarrow> string \<Rightarrow> pyval \<Rightarrow> exn + info"
  strip_tags :: "string \<Rightarrow> string"
  str_of :: "pyval \<Rightarrow> string"
  strptime :: "string \<Rightarrow> timestamp option"
  utcnow :: timestamp

text \<open>
  The document store and the two registries the engine writes to. \<open>grants\<close> pairs
  an application with the identity it was granted for; \<open>logged\<close> collects the
  records written to the module's logger (level and message).
\<close>

record world =
  Credentials :: "nat \<rightharpoonup> EVECredential"
  Characters :: "pyval \<rightharpoonup> EVECharacter"
  Corporations :: "pyval \<rightharpoonup> EVECorporation"
  Alliances :: "pyval \<rightharpoonup> EVEAlliance"
  duplicates :: "(user \<times> user) set"
  grants :: "(nat \<times> pyval) list"
  logged :: "(string \<times> string) list"

definition log_msg :: "string \<Rightarrow> string \<Rightarrow> world \<Rightarrow> world" where
  "log_msg level msg w = w\<lparr>logged := logged w @ [(level, msg)]\<rparr>"

text \<open>\<^verbatim>\<open>self.save()\<close>: the stored row becomes the in-memory document.\<close>

definition save :: "EVECredential \<Rightarrow> world \<Rightarrow> world" where
  "save self w = w\<lparr>Credentials := (Credentials w)(cred_id self \<mapsto> self)\<rparr>"

section \<open>Reading an integer\<close>

text \<open>Python's \<^verbatim>\<open>int(s)\<close> on text, base ten: surrounding white space is dropped, one
  sign is allowed, at least one digit must follow and nothing else. \<open>None\<close> stands
  for \<^verbatim>\<open>ValueError\<close>.\<close>

definition is_space :: "char \<Rightarrow> bool" where
  "is_space c = (c \<in> set [CHR '' '', CHR 0x09, CHR 0x0A, CHR 0x0B, CHR 0x0C, CHR 0x0D])"

definition digit_val :: "char \<Rightarrow> nat option" where
  "digit_val c =
    map_of [(CHR ''0'', 0), (CHR ''1'', 1), (CHR ''2'', 2), (CHR ''3'', 3), (CHR ''4'', 4),
            (CHR ''5'', 5), (CHR ''6'', 6), (CHR ''7'', 7), (CHR ''8'', 8), (CHR ''9'', 9)] c"

fun digits_val :: "nat \<Rightarrow> string \<Rightarrow> nat option" where
  "digits_val acc [] = Some acc"
| "digits_val acc (c # cs) =
    (case digit_val c of None \<Rightarrow> None | Some d \<Rightarrow> digits_val (10 * acc + d) cs)"

definition unsigned_val :: "string \<Rightarrow> nat option" where
  "unsigned_val s = (if s = [] then None else digits_val 0 s)"

definition strip :: "string \<Rightarrow> string" where
  "strip s = rev (dropWhile is_space (rev (dropWhile is_space s)))"

definition py_int :: "string \<Rightarrow> int option" where
  "py_int s =
    (case strip s of
       [] \<Rightarrow> None
     | c # cs \<Rightarrow>
         if c = CHR ''-'' then map_option (\<lambda>n. - int n) (unsigned_val cs)
         else if c = CHR ''+'' then map_option int (unsigned_val cs)
         else map_option int (unsigned_val (c # cs)))"

section \<open>The credential's operations\<close>

text \<open>The \<^verbatim>\<open>mask\<close> property: a key mask object for the three known kinds, otherwise a
  line in the log and \<^verbatim>\<open>None\<close>.\<close>

definition mask_getter :: "EVECredential \<Rightarrow> world \<Rightarrow> keymask option \<times> world" where
  "mask_getter self w =
    (if kind self = Some ''Account'' then (Some (EVECharacterKeyMask (raw_mask self)), w)
     else if kind self = Some ''Character'' then (Some (EVECharacterKeyMask (raw_mask self)), w)
     else if kind self = Some ''Corporation'' then (Some (EVECorporationKeyMask (raw_mask self)), w)
     else (None, log_msg ''info'' ''Incorrect key type %s for key %s.'' w))"

text \<open>\<^verbatim>\<open>self.mask.has_access(m)\<close>: calling the method on \<^verbatim>\<open>None\<close> raises.\<close>

definition mask_has_access :: "env \<Rightarrow> EVECredential \<Rightarrow> int \<Rightarrow> world \<Rightarrow> (exn + bool) \<times> world" where
  "mask_has_access e self m w =
    (case mask_getter self w of
       (None, w') \<Rightarrow> (Inl AttributeError, w')
     | (Some km, w') \<Rightarrow> (Inr (has_access e km m), w'))"

text \<open>The policy test both \<^verbatim>\<open>eval_violation\<close> and \<^verbatim>\<open>pull\<close> compute: the kind is the
  recommended one, or an Account key stands in for a Character key.\<close>

definition kind_acceptable :: "env \<Rightarrow> EVECredential \<Rightarrow> bool" where
  "kind_acceptable e self =
    (let ka = (kind self = Some (recommended_key_kind e))
     in if \<not> ka \<and> recommended_key_kind e = ''Character'' \<and> kind self = Some ''Account''
        then True else ka)"

definition eval_violation ::
  "env \<Rightarrow> EVECredential \<Rightarrow> world \<Rightarrow> (exn + unit) \<times> EVECredential \<times> world" where
  "eval_violation e self w =
    (case py_int (recommended_key_mask e) of
       None \<Rightarrow> (Inr (), self, log_msg ''warning'' ''core.recommended_key_mask MUST be an integer.'' w)
     | Some rec_mask \<Rightarrow>
         if violation self = Some ''Character'' then (Inr (), self, w)
         else if \<not> kind_acceptable e self then
           (let self' = self\<lparr>violation := Some ''Kind''\<rparr> in (Inr (), self', save self' w))
         else
           (case mask_has_access e self rec_mask w of
              (Inl x, w') \<Rightarrow> (Inl x, self, w')
            | (Inr ok, w') \<Rightarrow>
                if \<not> ok then
                  (let self' = self\<lparr>violation := Some ''Mask''\<rparr> in (Inr (), self', save self' w'))
                else
                  (let self' = self\<lparr>violation := None\<rparr> in (Inr (), self', save self' w'))))"

section \<open>Collaborators that are not part of the source at hand\<close>

text \<open>
  Modelled from the spec: \<^verbatim>\<open>User.add_duplicate\<close> of \<^verbatim>\<open>brave.core.account.model\<close>,
  the duplicate-account registry \<^verbatim>\<open>recordDuplicate(accountA, accountB)\<close> of spec
  section 6, "idempotent, symmetric": each account is marked a duplicate of the
  other.
\<close>

definition add_duplicate :: "user \<Rightarrow> user \<Rightarrow> world \<Rightarrow> world" where
  "add_duplicate a b w = w\<lparr>duplicates := insert (a, b) (insert (b, a) (duplicates w))\<rparr>"

text \<open>
  Modelled from the spec: \<^verbatim>\<open>EVECharacter.detach\<close> of \<^verbatim>\<open>brave.core.character.model\<close>,
  the identity detach of spec section 4.5: "remove the owner reference from an
  Identity and remove it from the triggering credential's identity set, but only
  if no other live Credential Record still reports access to it; otherwise leave
  the identity's owner intact (it is still claimed through another key) and only
  remove the association with the specific credential being dropped". The
  triggering credential is the one whose \<^verbatim>\<open>delete\<close> or \<^verbatim>\<open>pull\<close> calls \<^verbatim>\<open>detach\<close>. A
  credential record is live when the store holds it, and it reports access to the
  identity when the credential list of the identity holds it.
\<close>

definition other_live_credential :: "EVECredential \<Rightarrow> world \<Rightarrow> EVECharacter \<Rightarrow> bool" where
  "other_live_credential self w c =
    list_ex (\<lambda>k. k \<noteq> cred_id self \<and> Credentials w k \<noteq> None) (credentials c)"

definition detach :: "EVECredential \<Rightarrow> world \<Rightarrow> EVECharacter \<Rightarrow> EVECharacter" where
  "detach self w c =
    (if other_live_credential self w c
     then c\<lparr>credentials := removeAll (cred_id self) (credentials c)\<rparr>
     else c\<lparr>char_owner := None, credentials := removeAll (cred_id self) (credentials c)\<rparr>)"

text \<open>
  Modelled from the spec: \<^verbatim>\<open>ApplicationGrant.remove_grants_for_character\<close> of
  \<^verbatim>\<open>brave.core.application.model\<close>, the grant revocation sink
  \<^verbatim>\<open>revokeGrantsForIdentity(identityId)\<close> of spec section 6, idempotent on the
  receiving side: no grant for the identity is left.
\<close>

definition remove_grants_for_character :: "pyval \<Rightarrow> (nat \<times> pyval) list \<Rightarrow> (nat \<times> pyval) list" where
  "remove_grants_for_character i gs = filter (\<lambda>g. snd g \<noteq> i) gs"

text \<open>
  Modelled from the spec: deleting the stored credential row cascades to the
  identities (spec sections 4.4 and 4.5, "remove the association with the specific
  credential being dropped"); the rule is declared with \<^verbatim>\<open>EVECharacter.credentials\<close>
  in \<^verbatim>\<open>brave.core.character.model\<close>, the module \<^verbatim>\<open>pull\<close> imports before it deletes.
\<close>

definition document_delete :: "EVECredential \<Rightarrow> world \<Rightarrow> world" where
  "document_delete self w =
    w\<lparr>Credentials := (Credentials w)(cred_id self := None),
      Characters := (\<lambda>i. case Characters w i of
                            None \<Rightarrow> None
                          | Some c \<Rightarrow> Some (c\<lparr>credentials := removeAll (cred_id self) (credentials c)\<rparr>))\<rparr>"

section \<open>Deleting a credential\<close>

text \<open>\<^verbatim>\<open>self.characters\<close>: the identities whose credential list holds this credential.\<close>

definition attached :: "EVECredential \<Rightarrow> EVECharacter \<Rightarrow> bool" where
  "attached self c = (cred_id self \<in> set (credentials c))"

text \<open>
  \<^verbatim>\<open>delete\<close>: the loop visits every attached identity once and touches that
  identity only, so its effect on the store is given row by row. An identity with
  no credential other than this one is detached (line 63).
  \<^verbatim>\<open>char.credentials.remove(self)\<close> changes the list of the loaded document, which is
  not saved; a row that was not detached loses the credential when the credential
  row is deleted.
\<close>

definition delete :: "EVECredential \<Rightarrow> world \<Rightarrow> world" where
  "delete self w =
    document_delete self
      (w\<lparr>Characters := (\<lambda>i. case Characters w i of
                            None \<Rightarrow> None
                          | Some c \<Rightarrow>
                              if attached self c \<and> length (filter (\<lambda>k. k \<noteq> cred_id self) (credentials c)) = 0
                              then Some (detach self w c) else Some c)\<rparr>)"

section \<open>Corporation and alliance of an identity\<close>

text \<open>Lines 161 to 164: the alliance of the payload, looked up or created with the
  name as default; none when the payload has no alliance identifier or a null one.\<close>

definition get_or_create_alliance ::
  "info \<Rightarrow> pyval \<Rightarrow> world \<Rightarrow> pyval option \<times> bool \<times> world" where
  "get_or_create_alliance info allianceName w =
    (case info ''allianceID'' of
       None \<Rightarrow> (None, False, w)
     | Some aid \<Rightarrow>
         if truthy aid then
           (case Alliances w aid of
              None \<Rightarrow> (Some aid, True,
                        w\<lparr>Alliances := (Alliances w)(aid \<mapsto> \<lparr>alliance_name = allianceName\<rparr>)\<rparr>)
            | Some a \<Rightarrow> (Some aid, False, w))
         else (None, False, w))"

text \<open>Lines 166 to 168: the stored name of an alliance that was not just created is
  corrected and saved when it differs.\<close>

definition correct_alliance_name :: "pyval option \<Rightarrow> bool \<Rightarrow> pyval \<Rightarrow> world \<Rightarrow> world" where
  "correct_alliance_name ally created allianceName w =
    (case ally of
       None \<Rightarrow> w
     | Some aid \<Rightarrow>
         (case Alliances w aid of
            None \<Rightarrow> w
          | Some a \<Rightarrow>
              if \<not> created \<and> alliance_name a \<noteq> allianceName
              then w\<lparr>Alliances := (Alliances w)(aid \<mapsto> a\<lparr>alliance_name := allianceName\<rparr>)\<rparr>
              else w))"

text \<open>Lines 170 to 181: the corporation, looked up or created, its name and alliance
  set, saved when a field changed.\<close>

definition get_or_create_corporation :: "pyval \<Rightarrow> pyval \<Rightarrow> pyval option \<Rightarrow> world \<Rightarrow> world" where
  "get_or_create_corporation corpid corporationName ally w =
    (let corp = (case Corporations w corpid of
                   None \<Rightarrow> \<lparr>corp_name = corporationName, corp_alliance = ally\<rparr>
                 | Some c \<Rightarrow> c);
         corp' = (if corp_name corp \<noteq> corporationName
                  then corp\<lparr>corp_name := corporationName\<rparr>
                  else corp)\<lparr>corp_alliance := ally\<rparr>
     in if Corporations w corpid = None \<or> corp' \<noteq> corp
        then w\<lparr>Corporations := (Corporations w)(corpid \<mapsto> corp')\<rparr>
        else w)"

text \<open>\<^verbatim>\<open>get_membership\<close>: the identifiers of the corporation and of the alliance (if
  any) of the payload, or the exception raised, and the store.\<close>

definition get_membership ::
  "info \<Rightarrow> world \<Rightarrow> (exn + pyval \<times> pyval option) \<times> world" where
  "get_membership info w =
    (let allianceName = (case info ''alliance'' of
                           Some v \<Rightarrow> v
                         | None \<Rightarrow> (case info ''allianceName'' of Some v \<Rightarrow> v | None \<Rightarrow> PNone))
     in case (case info ''corporation'' of Some v \<Rightarrow> Inr v | None \<Rightarrow> attr info ''corporationName'') of
          Inl x \<Rightarrow> (Inl x, w)
        | Inr corporationName \<Rightarrow>
            (case get_or_create_alliance info allianceName w of
               (ally, created, w1) \<Rightarrow>
                 (let w2 = correct_alliance_name ally created allianceName w1
                  in case attr info ''corporationID'' of
                       Inl x \<Rightarrow> (Inl x, w2)
                     | Inr corpid \<Rightarrow>
                         (Inr (corpid, ally),
                          get_or_create_corporation corpid corporationName ally w2))))"

section \<open>Merging one identity\<close>

text \<open>An identity row as \<^verbatim>\<open>EVECharacter(identifier=...)\<close> creates it: every other field
  at its default.\<close>

definition new_character :: EVECharacter where
  "new_character =
    \<lparr>char_name = PNone, char_owner = None, credentials = [], corporation = None,
     alliance = None, race = PNone, bloodline = PNone, ancestry = PNone, gender = PNone,
     security = PNone, titles = [], roles = []\<rparr>"

text \<open>The body of the second \<^verbatim>\<open>try\<close>: the richest view the mask permits, or the row of
  the key info itself when the mask permits neither.\<close>

definition character_view ::
  "env \<Rightarrow> EVECredential \<Rightarrow> info \<Rightarrow> pyval \<Rightarrow> world \<Rightarrow> (exn + info) \<times> world" where
  "character_view e self info cid w =
    (case mask_has_access e self (CharacterSheet_mask e) w of
       (Inl x, w1) \<Rightarrow> (Inl x, w1)
     | (Inr full, w1) \<Rightarrow>
         if full then (CharacterSheet e (key self) (code self) cid, w1)
         else
           (case mask_has_access e self (CharacterInfoPublic_mask e) w1 of
              (Inl x, w2) \<Rightarrow> (Inl x, w2)
            | (Inr public, w2) \<Rightarrow>
                if public then (CharacterInfoPublic e (key self) (code self) cid, w2)
                else (Inr info, w2)))"

text \<open>\<^verbatim>\<open>[strip_tags(i.titleName) for i in info.corporationTitles.row]\<close> and
  \<^verbatim>\<open>[i.roleName for i in info.corporationRoles.row]\<close>, row by row.\<close>

fun title_names :: "env \<Rightarrow> (string \<times> pyval) list list \<Rightarrow> exn + pyval list" where
  "title_names e [] = Inr []"
| "title_names e (r # rs) =
    (case map_of r ''titleName'' of
       None \<Rightarrow> Inl AttributeError
     | Some (PStr t) \<Rightarrow>
         (case title_names e rs of Inl x \<Rightarrow> Inl x | Inr ts \<Rightarrow> Inr (PStr (strip_tags e t) # ts))
     | Some _ \<Rightarrow> Inl TypeError)"

fun role_names :: "(string \<times> pyval) list list \<Rightarrow> exn + pyval list" where
  "role_names [] = Inr []"
| "role_names (r # rs) =
    (case map_of r ''roleName'' of
       None \<Rightarrow> Inl AttributeError
     | Some v \<Rightarrow> (case role_names rs of Inl x \<Rightarrow> Inl x | Inr vs \<Rightarrow> Inr (v # vs)))"

definition rows_of :: "pyval \<Rightarrow> exn + (string \<times> pyval) list list" where
  "rows_of v = (case v of PRows rs \<Rightarrow> Inr rs | _ \<Rightarrow> Inl AttributeError)"

definition optional :: "info \<Rightarrow> string \<Rightarrow> pyval" where
  "optional info k = (case info k of Some v \<Rightarrow> v | None \<Rightarrow> PNone)"

text \<open>The assignments of lines 133 to 149 on the loaded identity, in the order of the
  source; the first one that raises ends the merge.\<close>

definition merge_info ::
  "env \<Rightarrow> EVECredential \<Rightarrow> info \<Rightarrow> pyval \<Rightarrow> pyval option \<Rightarrow> EVECharacter \<Rightarrow> exn + EVECharacter" where
  "merge_info e self info corp ally char =
    (case (case info ''name'' of Some v \<Rightarrow> Inr v | None \<Rightarrow> attr info ''characterName'') of
       Inl x \<Rightarrow> Inl x
     | Inr n \<Rightarrow>
         (let char1 = char\<lparr>corporation := Some corp, alliance := ally,
                           char_name := (case n of PStr t \<Rightarrow> PStr t | _ \<Rightarrow> PStr (str_of e n)),
                           char_owner := Some (owner self),
                           credentials := (if cred_id self \<in> set (credentials char) then credentials char
                                           else credentials char @ [cred_id self]),
                           race := optional info ''race'',
                           bloodline := (case info ''bloodLine'' of
                                           Some v \<Rightarrow> v
                                         | None \<Rightarrow> optional info ''bloodline''),
                           ancestry := optional info ''ancestry'',
                           gender := optional info ''gender'',
                           security := optional info ''security''\<rparr>
          in case (case info ''corporationTitles'' of
                     None \<Rightarrow> Inr []
                   | Some v \<Rightarrow> (case rows_of v of Inl x \<Rightarrow> Inl x | Inr rs \<Rightarrow> title_names e rs)) of
               Inl x \<Rightarrow> Inl x
             | Inr ts \<Rightarrow>
                 (case (case info ''corporationRoles'' of
                          None \<Rightarrow> Inr []
                        | Some v \<Rightarrow> (case rows_of v of Inl x \<Rightarrow> Inl x | Inr rs \<Rightarrow> role_names rs)) of
                    Inl x \<Rightarrow> Inl x
                  | Inr rls \<Rightarrow> Inr (char1\<lparr>titles := ts, roles := rls\<rparr>))))"

text \<open>
  \<^verbatim>\<open>pull_character\<close>. The result is what the call returned (\<open>None\<close> on an ownership
  conflict, otherwise the identifier and the saved identity) or raised, the
  credential as the call leaves it in memory, and the store.
\<close>

definition pull_character ::
  "env \<Rightarrow> info \<Rightarrow> EVECredential \<Rightarrow> world \<Rightarrow>
     (exn + (pyval \<times> EVECharacter) option) \<times> EVECredential \<times> world" where
  "pull_character e info self w =
    (case attr info ''characterID'' of
       Inl x \<Rightarrow> (Inl x, self, w)
     | Inr cid \<Rightarrow>
         (let (char, new, w0) =
                (case Characters w cid of
                   None \<Rightarrow> (new_character, True, w\<lparr>Characters := (Characters w)(cid \<mapsto> new_character)\<rparr>)
                 | Some c \<Rightarrow> (c, False, w))
          in if \<not> new \<and> char_owner char \<noteq> None \<and> Some (owner self) \<noteq> char_owner char then
               (Inr None, self\<lparr>violation := Some ''Character''\<rparr>,
                add_duplicate (owner self) (the (char_owner char))
                  (log_msg ''warning'' ''Security violation detected. Multiple accounts trying to register character %s, ID %d. Actual owner is %s. User adding this character is %s.'' w0))
             else
               (case character_view e self info cid w0 of
                  (Inl x, w1) \<Rightarrow>
                    (let w2 = log_msg ''warning'' ''An error occured while querying data for key %s.'' w1
                     in (Inl x, self,
                         if new then w2\<lparr>Characters := (Characters w2)(cid := None)\<rparr> else w2))
                | (Inr info', w1) \<Rightarrow>
                    (case get_membership info' w1 of
                       (Inl x, w2) \<Rightarrow> (Inl x, self, w2)
                     | (Inr (corp, ally), w2) \<Rightarrow>
                         (case merge_info e self info' corp ally char of
                            Inl x \<Rightarrow> (Inl x, self, w2)
                          | Inr char' \<Rightarrow>
                              (Inr (Some (cid, char')), self,
                               w2\<lparr>Characters := (Characters w2)(cid \<mapsto> char')\<rparr>))))))"

section \<open>The pull cycle\<close>

text \<open>Lines 247 to 249: mask, kind and expiry from the key info. The mask and the
  kind are already assigned when the expiry fails to parse.\<close>

definition set_key_info :: "env \<Rightarrow> key_info \<Rightarrow> EVECredential \<Rightarrow> (exn + unit) \<times> EVECredential" where
  "set_key_info e result self =
    (case py_int (accessMask result) of
       None \<Rightarrow> (Inl ValueError, self)
     | Some m \<Rightarrow>
         (let self1 = self\<lparr>raw_mask := m, kind := Some (key_type result)\<rparr>
          in case key_expires result of
               None \<Rightarrow> (Inr (), self1\<lparr>expires := None\<rparr>)
             | Some s \<Rightarrow>
                 if s = [] then (Inr (), self1\<lparr>expires := None\<rparr>)
                 else (case strptime e s of
                         None \<Rightarrow> (Inl ValueError, self1)
                       | Some t \<Rightarrow> (Inr (), self1\<lparr>expires := Some t\<rparr>))))"

text \<open>Lines 251 to 261: the verified flag. Only \<^verbatim>\<open>ValueError\<close> is caught.\<close>

definition set_verified ::
  "env \<Rightarrow> EVECredential \<Rightarrow> world \<Rightarrow> (exn + unit) \<times> EVECredential \<times> world" where
  "set_verified e self w =
    (case py_int (recommended_key_mask e) of
       None \<Rightarrow> (Inr (), self\<lparr>verified := False\<rparr>,
                 log_msg ''warning'' ''core.recommended_key_mask MUST be an integer.'' w)
     | Some rec_mask \<Rightarrow>
         (case mask_has_access e self rec_mask w of
            (Inl x, w') \<Rightarrow> (Inl x, self, w')
          | (Inr ok, w') \<Rightarrow> (Inr (), self\<lparr>verified := (ok \<and> kind_acceptable e self)\<rparr>, w')))"

text \<open>Lines 270 to 279: the loop over the rows of the key info, with \<^verbatim>\<open>allCharsOK\<close> and
  the identifiers of \<^verbatim>\<open>pulled_characters\<close> as accumulators.\<close>

fun pull_rows ::
  "env \<Rightarrow> info list \<Rightarrow> EVECredential \<Rightarrow> bool \<Rightarrow> pyval set \<Rightarrow> world \<Rightarrow>
     (exn + bool \<times> pyval set) \<times> EVECredential \<times> world" where
  "pull_rows e [] self allCharsOK pulled w = (Inr (allCharsOK, pulled), self, w)"
| "pull_rows e (char # rest) self allCharsOK pulled w =
    (if char ''corporationName'' = None then
       pull_rows e rest self allCharsOK pulled
         (log_msg ''error'' ''corporationName missing for key %d'' w)
     else
       (case pull_character e char self w of
          (Inl x, self', w') \<Rightarrow> (Inl x, self', w')
        | (Inr None, self', w') \<Rightarrow> pull_rows e rest self' False pulled w'
        | (Inr (Some (i, c)), self', w') \<Rightarrow> pull_rows e rest self' allCharsOK (insert i pulled) w'))"

text \<open>Lines 285 to 288: every identity attached to the credential and not pulled in
  this cycle is detached and saved.\<close>

definition detach_outdated :: "EVECredential \<Rightarrow> pyval set \<Rightarrow> world \<Rightarrow> world" where
  "detach_outdated self pulled w =
    w\<lparr>Characters := (\<lambda>i. case Characters w i of
                          None \<Rightarrow> None
                        | Some c \<Rightarrow> if attached self c \<and> i \<notin> pulled then Some (detach self w c) else Some c)\<rparr>"

text \<open>Lines 295 to 301. A reference to a credential that is no longer stored counts
  as not verified.\<close>

definition char_has_verified_key :: "world \<Rightarrow> EVECharacter \<Rightarrow> bool" where
  "char_has_verified_key w c =
    list_ex (\<lambda>k. case Credentials w k of None \<Rightarrow> False | Some cr \<Rightarrow> verified cr) (credentials c)"

definition revoke_grants :: "EVECredential \<Rightarrow> world \<Rightarrow> world" where
  "revoke_grants self w =
    w\<lparr>grants := filter (\<lambda>g. case Characters w (snd g) of
                              None \<Rightarrow> True
                            | Some c \<Rightarrow> \<not> (attached self c \<and> \<not> char_has_verified_key w c))
                        (grants w)\<rparr>"

text \<open>Lines 263 to 303: what \<^verbatim>\<open>pull\<close> does once the key info is applied.\<close>

definition reconcile ::
  "env \<Rightarrow> key_info \<Rightarrow> EVECredential \<Rightarrow> world \<Rightarrow>
     (exn + EVECredential option) \<times> EVECredential \<times> world" where
  "reconcile e result self w =
    (if characters_row result = [] then
       (Inr (Some self), self, log_msg ''error'' ''No characters returned for key %d?'' w)
     else
       (case pull_rows e (characters_row result) self True {} w of
          (Inl x, self1, w1) \<Rightarrow> (Inl x, self1, w1)
        | (Inr (allCharsOK, pulled), self1, w1) \<Rightarrow>
            (let self2 = (if allCharsOK \<and> violation self1 = Some ''Character''
                          then self1\<lparr>violation := None\<rparr> else self1);
                 w2 = detach_outdated self2 pulled w1
             in case eval_violation e self2 w2 of
                  (Inl x, self3, w3) \<Rightarrow> (Inl x, self3, w3)
                | (Inr u, self3, w3) \<Rightarrow>
                    (let self4 = self3\<lparr>modified := utcnow e\<rparr>;
                         w4 = save self4 w3
                     in (Inr (Some self4), self4, revoke_grants self4 w4)))))"

text \<open>\<^verbatim>\<open>pull\<close>: the value returned or the exception raised, the credential as the call
  leaves it in memory, and the store. \<^verbatim>\<open>pull_corp\<close> returns \<^verbatim>\<open>self\<close>.\<close>

definition pull_corp :: "EVECredential \<Rightarrow> EVECredential" where
  "pull_corp self = self"

definition pull ::
  "env \<Rightarrow> EVECredential \<Rightarrow> world \<Rightarrow> (exn + EVECredential option) \<times> EVECredential \<times> world" where
  "pull e self w =
    (if kind self = Some ''Corporation'' then (Inr (Some (pull_corp self)), self, w)
     else
       (case APIKeyInfo e (key self) (code self) of
          Inl x \<Rightarrow>
            (case x of
               HTTPError status \<Rightarrow>
                 if status = 403 then
                   (Inr None, self, delete self (log_msg ''debug'' ''key disabled; deleting %d'' w))
                 else (Inr None, self, log_msg ''error'' ''Unable to call: APIKeyInfo(%d)'' w)
             | _ \<Rightarrow> (Inl x, self, w))
        | Inr result \<Rightarrow>
            (case set_key_info e result self of
               (Inl x, self1) \<Rightarrow> (Inl x, self1, w)
             | (Inr u, self1) \<Rightarrow>
                 (case set_verified e self1 w of
                    (Inl x, self2, w2) \<Rightarrow> (Inl x, self2, w2)
                  | (Inr u', self2, w2) \<Rightarrow> reconcile e result self2 w2))))"


section \<open>What a pull writes, told without the store\<close>

text \<open>
  The functions of this section describe the reads and writes of the operations
  above as data, so that two runs can be compared. They are derived notions: the
  lemmas below relate each of them to the operation it describes.
\<close>

definition known_kind :: "EVECredential \<Rightarrow> bool" where
  "known_kind self = (kind self \<in> {Some ''Account'', Some ''Character'', Some ''Corporation''})"

definition key_mask_of :: "EVECredential \<Rightarrow> keymask" where
  "key_mask_of self =
    (if kind self = Some ''Corporation'' then EVECorporationKeyMask (raw_mask self)
     else EVECharacterKeyMask (raw_mask self))"

text \<open>The store without its log.\<close>

definition store :: "world \<Rightarrow> world" where
  "store w = w\<lparr>logged := []\<rparr>"

text \<open>The account that owns an identity, when it is not the given one: the test of
  line 109.\<close>

definition conf :: "user \<Rightarrow> world \<Rightarrow> pyval \<Rightarrow> user option" where
  "conf u w cid =
    (case Characters w cid of
       None \<Rightarrow> None
     | Some c \<Rightarrow> (case char_owner c of None \<Rightarrow> None | Some a \<Rightarrow> if a \<noteq> u then Some a else None))"

definition view_of :: "env \<Rightarrow> EVECredential \<Rightarrow> info \<Rightarrow> pyval \<Rightarrow> exn + info" where
  "view_of e self info cid =
    (if \<not> known_kind self then Inl AttributeError
     else if has_access e (key_mask_of self) (CharacterSheet_mask e)
       then CharacterSheet e (key self) (code self) cid
     else if has_access e (key_mask_of self) (CharacterInfoPublic_mask e)
       then CharacterInfoPublic e (key self) (code self) cid
     else Inr info)"

definition view_log :: "EVECredential \<Rightarrow> (string \<times> string) list" where
  "view_log self =
    (if known_kind self then [] else [(''info'', ''Incorrect key type %s for key %s.'')])"

definition alliance_name_of :: "info \<Rightarrow> pyval" where
  "alliance_name_of info =
    (case info ''alliance'' of
       Some v \<Rightarrow> v
     | None \<Rightarrow> (case info ''allianceName'' of Some v \<Rightarrow> v | None \<Rightarrow> PNone))"

definition corporation_name_of :: "info \<Rightarrow> exn + pyval" where
  "corporation_name_of info =
    (case info ''corporation'' of Some v \<Rightarrow> Inr v | None \<Rightarrow> attr info ''corporationName'')"

definition alliance_of :: "info \<Rightarrow> pyval option" where
  "alliance_of info =
    (case info ''allianceID'' of None \<Rightarrow> None | Some aid \<Rightarrow> if truthy aid then Some aid else None)"

definition membership_of :: "info \<Rightarrow> exn + pyval \<times> pyval option" where
  "membership_of info =
    (case corporation_name_of info of
       Inl x \<Rightarrow> Inl x
     | Inr cn \<Rightarrow>
         (case attr info ''corporationID'' of
            Inl x \<Rightarrow> Inl x
          | Inr corpid \<Rightarrow> Inr (corpid, alliance_of info)))"

definition allys_of :: "info \<Rightarrow> pyval \<rightharpoonup> EVEAlliance" where
  "allys_of info =
    (case corporation_name_of info of
       Inl x \<Rightarrow> Map.empty
     | Inr cn \<Rightarrow>
         (case alliance_of info of
            None \<Rightarrow> Map.empty
          | Some aid \<Rightarrow> [aid \<mapsto> \<lparr>alliance_name = alliance_name_of info\<rparr>]))"

definition corps_of :: "info \<Rightarrow> pyval \<rightharpoonup> EVECorporation" where
  "corps_of info =
    (case corporation_name_of info of
       Inl x \<Rightarrow> Map.empty
     | Inr cn \<Rightarrow>
         (case info ''corporationID'' of
            None \<Rightarrow> Map.empty
          | Some corpid \<Rightarrow> [corpid \<mapsto> \<lparr>corp_name = cn, corp_alliance = alliance_of info\<rparr>]))"

text \<open>
  What a step leaves in the row of an identity: the row exists (created empty when
  it did not), or it holds the merged attributes; the credential list of the row
  is kept and the pulling credential added to it.
\<close>

datatype char_write = Ensure | Merge EVECharacter

definition add_credential :: "nat \<Rightarrow> nat list \<Rightarrow> nat list" where
  "add_credential n ks = (if n \<in> set ks then ks else ks @ [n])"

fun write_char :: "nat \<Rightarrow> char_write \<Rightarrow> EVECharacter option \<Rightarrow> EVECharacter option" where
  "write_char n Ensure old = Some (case old of None \<Rightarrow> new_character | Some c \<Rightarrow> c)"
| "write_char n (Merge k) old =
    Some (k\<lparr>credentials :=
              add_credential n (credentials (case old of None \<Rightarrow> new_character | Some c \<Rightarrow> c))\<rparr>)"

record delta =
  d_chars :: "pyval \<rightharpoonup> char_write"
  d_allys :: "pyval \<rightharpoonup> EVEAlliance"
  d_corps :: "pyval \<rightharpoonup> EVECorporation"
  d_dups :: "(user \<times> user) set"

definition no_delta :: delta where
  "no_delta = \<lparr>d_chars = Map.empty, d_allys = Map.empty, d_corps = Map.empty, d_dups = {}\<rparr>"

definition apply_delta :: "nat \<Rightarrow> delta \<Rightarrow> world \<Rightarrow> world" where
  "apply_delta n d w =
    w\<lparr>Characters := (\<lambda>i. case d_chars d i of
                            None \<Rightarrow> Characters w i
                          | Some cw \<Rightarrow> write_char n cw (Characters w i)),
      Alliances := Alliances w ++ d_allys d,
      Corporations := Corporations w ++ d_corps d,
      duplicates := duplicates w \<union> d_dups d\<rparr>"

definition then_write :: "char_write option \<Rightarrow> char_write option \<Rightarrow> char_write option" where
  "then_write a b =
    (case b of
       None \<Rightarrow> a
     | Some Ensure \<Rightarrow> (case a of None \<Rightarrow> Some Ensure | Some cw \<Rightarrow> Some cw)
     | Some (Merge k) \<Rightarrow> Some (Merge k))"

definition then_delta :: "delta \<Rightarrow> delta \<Rightarrow> delta" where
  "then_delta a b =
    \<lparr>d_chars = (\<lambda>i. then_write (d_chars a i) (d_chars b i)),
     d_allys = d_allys a ++ d_allys b,
     d_corps = d_corps a ++ d_corps b,
     d_dups = d_dups a \<union> d_dups b\<rparr>"

text \<open>What one row of the key info does, given who owns which identity.\<close>

datatype outcome = Raises exn | Conflicts | Pulls pyval

definition merged_of :: "env \<Rightarrow> EVECredential \<Rightarrow> info \<Rightarrow> exn + EVECharacter" where
  "merged_of e self info =
    (case membership_of info of
       Inl x \<Rightarrow> Inl x
     | Inr (corp, ally) \<Rightarrow> merge_info e self info corp ally new_character)"

definition row_outcome ::
  "env \<Rightarrow> EVECredential \<Rightarrow> (pyval \<Rightarrow> user option) \<Rightarrow> info \<Rightarrow> outcome" where
  "row_outcome e self cf info =
    (case info ''characterID'' of
       None \<Rightarrow> Raises AttributeError
     | Some cid \<Rightarrow>
         (case cf cid of
            Some a \<Rightarrow> Conflicts
          | None \<Rightarrow>
              (case view_of e self info cid of
                 Inl x \<Rightarrow> Raises x
               | Inr info' \<Rightarrow>
                   (case merged_of e self info' of Inl x \<Rightarrow> Raises x | Inr k \<Rightarrow> Pulls cid))))"

definition row_delta ::
  "env \<Rightarrow> EVECredential \<Rightarrow> (pyval \<Rightarrow> user option) \<Rightarrow> info \<Rightarrow> delta" where
  "row_delta e self cf info =
    (case info ''characterID'' of
       None \<Rightarrow> no_delta
     | Some cid \<Rightarrow>
         (case cf cid of
            Some a \<Rightarrow> no_delta\<lparr>d_dups := {(owner self, a), (a, owner self)}\<rparr>
          | None \<Rightarrow>
              (case view_of e self info cid of
                 Inl x \<Rightarrow> no_delta
               | Inr info' \<Rightarrow>
                   \<lparr>d_chars = [cid \<mapsto> (case merged_of e self info' of
                                          Inl x \<Rightarrow> Ensure
                                        | Inr k \<Rightarrow> Merge k)],
                    d_allys = allys_of info', d_corps = corps_of info', d_dups = {}\<rparr>)))"

text \<open>The identity a row loads: the stored one, or the one just created.\<close>

definition loaded :: "world \<Rightarrow> pyval \<Rightarrow> EVECharacter" where
  "loaded w cid = (case Characters w cid of None \<Rightarrow> new_character | Some c \<Rightarrow> c)"

text \<open>What the loop over the rows does: the exception that ends it (if any), whether
  a row met a conflict, the identities pulled, and the writes.\<close>

fun rows_outcome ::
  "env \<Rightarrow> EVECredential \<Rightarrow> (pyval \<Rightarrow> user option) \<Rightarrow> info list \<Rightarrow> exn option \<times> bool \<times> pyval set" where
  "rows_outcome e self cf [] = (None, False, {})"
| "rows_outcome e self cf (r # rs) =
    (if r ''corporationName'' = None then rows_outcome e self cf rs
     else
       (case row_outcome e self cf r of
          Raises x \<Rightarrow> (Some x, False, {})
        | Conflicts \<Rightarrow> (case rows_outcome e self cf rs of (x, c, p) \<Rightarrow> (x, True, p))
        | Pulls cid \<Rightarrow> (case rows_outcome e self cf rs of (x, c, p) \<Rightarrow> (x, c, insert cid p))))"

fun rows_delta ::
  "env \<Rightarrow> EVECredential \<Rightarrow> (pyval \<Rightarrow> user option) \<Rightarrow> info list \<Rightarrow> delta" where
  "rows_delta e self cf [] = no_delta"
| "rows_delta e self cf (r # rs) =
    (if r ''corporationName'' = None then rows_delta e self cf rs
     else
       (case row_outcome e self cf r of
          Raises x \<Rightarrow> row_delta e self cf r
        | Conflicts \<Rightarrow> then_delta (row_delta e self cf r) (rows_delta e self cf rs)
        | Pulls cid \<Rightarrow> then_delta (row_delta e self cf r) (rows_delta e self cf rs)))"

text \<open>The violation \<^verbatim>\<open>eval_violation\<close> leaves in the credential.\<close>

definition evaluated :: "env \<Rightarrow> EVECredential \<Rightarrow> string option" where
  "evaluated e s =
    (case py_int (recommended_key_mask e) of
       None \<Rightarrow> violation s
     | Some r \<Rightarrow>
         if violation s = Some ''Character'' then Some ''Character''
         else if \<not> kind_acceptable e s then Some ''Kind''
         else if \<not> has_access e (key_mask_of s) r then Some ''Mask''
         else None)"


text \<open>The credential after the loop over the rows and the test of line 282, given
  whether a row met a conflict; and the credential that line 292 saves.\<close>

definition after_rows :: "bool \<Rightarrow> EVECredential \<Rightarrow> EVECredential" where
  "after_rows c s =
    (if c then s\<lparr>violation := Some ''Character''\<rparr>
     else if violation s = Some ''Character'' then s\<lparr>violation := None\<rparr> else s)"

definition saved_as :: "env \<Rightarrow> bool \<Rightarrow> EVECredential \<Rightarrow> EVECredential" where
  "saved_as e c s = (after_rows c s)\<lparr>violation := evaluated e (after_rows c s), modified := utcnow e\<rparr>"

text \<open>Two stores hold the same state when they differ at most in the log and in
  the \<^verbatim>\<open>modified\<close> field of the credentials.\<close>

definition unmodified :: "EVECredential \<Rightarrow> EVECredential" where
  "unmodified c = c\<lparr>modified := 0\<rparr>"

definition same_state :: "world \<Rightarrow> world \<Rightarrow> bool" where
  "same_state a b \<longleftrightarrow>
     (\<forall>n. map_option unmodified (Credentials a n) = map_option unmodified (Credentials b n)) \<and>
     Characters a = Characters b \<and> Corporations a = Corporations b \<and>
     Alliances a = Alliances b \<and> duplicates a = duplicates b \<and> grants a = grants b"

section \<open>Concrete scenarios\<close>

text \<open>A store with nothing in it, and an environment whose policy recommends a
  Character key with capability 8; a mask satisfies a requirement when it has all
  of its bits. Key 1001 is a Character key that reports identity 77, key 1002 has
  been revoked, key 1003 is an Account key that reports identity 77, key 1004
  meets a server error, key 1005 reports no identity, key 1006 reports identity
  79 in a row without corporation name, then identity 77.\<close>

definition world0 :: world where
  "world0 =
    \<lparr>Credentials = Map.empty, Characters = Map.empty, Corporations = Map.empty,
     Alliances = Map.empty, duplicates = {}, grants = [], logged = []\<rparr>"

definition row77 :: info where
  "row77 =
    [''characterID'' \<mapsto> PInt 77, ''characterName'' \<mapsto> PStr ''Alice'',
     ''corporationID'' \<mapsto> PInt 5, ''corporationName'' \<mapsto> PStr ''Corp'']"

definition sheet77 :: info where
  "sheet77 =
    [''characterID'' \<mapsto> PInt 77, ''name'' \<mapsto> PStr ''Alice'', ''race'' \<mapsto> PStr ''Gallente'',
     ''corporationID'' \<mapsto> PInt 5, ''corporationName'' \<mapsto> PStr ''Corp'',
     ''allianceID'' \<mapsto> PInt 9, ''alliance'' \<mapsto> PStr ''Brave'',
     ''allianceName'' \<mapsto> PStr ''Brave Collective'']"

definition key_info_1001 :: key_info where
  "key_info_1001 =
    \<lparr>accessMask = ''8'', key_type = ''Character'', key_expires = None, characters_row = [row77]\<rparr>"

definition key_info_1003 :: key_info where
  "key_info_1003 =
    \<lparr>accessMask = ''12'', key_type = ''Account'', key_expires = Some ''2030-01-01 00:00:00'',
     characters_row = [row77]\<rparr>"

definition key_info_1005 :: key_info where
  "key_info_1005 =
    \<lparr>accessMask = ''8'', key_type = ''Account'', key_expires = Some [], characters_row = []\<rparr>"

definition key_info_1006 :: key_info where
  "key_info_1006 =
    \<lparr>accessMask = ''8'', key_type = ''Character'', key_expires = None,
     characters_row = [[''characterID'' \<mapsto> PInt 79, ''characterName'' \<mapsto> PStr ''Carol''], row77]\<rparr>"

definition env0 :: env where
  "env0 =
    \<lparr>recommended_key_mask = ''8'', recommended_key_kind = ''Character'',
     has_access = (\<lambda>km m. case km of
                             EVECharacterKeyMask a \<Rightarrow> and a m = m
                           | EVECorporationKeyMask a \<Rightarrow> and a m = m),
     CharacterSheet_mask = 8, CharacterInfoPublic_mask = 1,
     APIKeyInfo = (\<lambda>k c.
        if k = 1001 then Inr key_info_1001
        else if k = 1002 then Inl (HTTPError 403)
        else if k = 1003 then Inr key_info_1003
        else if k = 1004 then Inl (HTTPError 500)
        else if k = 1005 then Inr key_info_1005
        else if k = 1006 then Inr key_info_1006
        else Inl RemoteError),
     CharacterSheet = (\<lambda>k c i. if i = PInt 77 then Inr sheet77 else Inl RemoteError),
     CharacterInfoPublic = (\<lambda>k c i. Inl RemoteError),
     strip_tags = (\<lambda>s. s), str_of = (\<lambda>v. ''?''),
     strptime = (\<lambda>s. if s = ''2030-01-01 00:00:00'' then Some 1893456000 else None),
     utcnow = 100\<rparr>"

text \<open>The same environment with a recommended mask that is not a number.\<close>

definition env_bad :: env where
  "env_bad = env0\<lparr>recommended_key_mask := ''abc''\<rparr>"

text \<open>Credentials of account 7.\<close>

definition cred :: "nat \<Rightarrow> int \<Rightarrow> string \<Rightarrow> int \<Rightarrow> string option \<Rightarrow> EVECredential" where
  "cred n k t m v =
    \<lparr>cred_id = n, key = k, code = ''secret'', kind = Some t, raw_mask = m, verified = False,
     expires = None, owner = 7, violation = v, modified = 0\<rparr>"

text \<open>Identity 77 as account 8 holds it through credential 2, and a store with that
  identity alone.\<close>

definition char77 :: EVECharacter where
  "char77 = new_character\<lparr>char_name := PStr ''Alice'', char_owner := Some 8, credentials := [2]\<rparr>"

definition world_owned :: world where
  "world_owned = world0\<lparr>Characters := [PInt 77 \<mapsto> char77]\<rparr>"

text \<open>Identity 78, whose data the remote API fails to deliver, as a row of the key
  info, and a store where it is already known, without an owner.\<close>

definition row78 :: info where
  "row78 =
    [''characterID'' \<mapsto> PInt 78, ''characterName'' \<mapsto> PStr ''Bob'',
     ''corporationID'' \<mapsto> PInt 5, ''corporationName'' \<mapsto> PStr ''Corp'']"

definition char78 :: EVECharacter where
  "char78 = new_character\<lparr>char_name := PStr ''Bob''\<rparr>"

definition world_known :: world where
  "world_known = world0\<lparr>Characters := [PInt 78 \<mapsto> char78]\<rparr>"

text \<open>Credential 2 (key 1002) of account 7 is the only credential of identity 77 and
  one of two credentials of identity 78; credential 9 is the other.\<close>

definition world_two :: world where
  "world_two =
    world0\<lparr>Credentials := [2 \<mapsto> cred 2 1002 ''Character'' 8 None, 9 \<mapsto> cred 9 1009 ''Character'' 8 None],
           Characters := [PInt 77 \<mapsto> new_character\<lparr>char_owner := Some 7, credentials := [2]\<rparr>,
                          PInt 78 \<mapsto> new_character\<lparr>char_owner := Some 7, credentials := [2, 9]\<rparr>]\<rparr>"

text \<open>Credential 6 (key 1006) of account 7 carries a "Character" violation. It is
  the only credential of identity 79 and one of the two credentials of identity 80;
  credential 9 is the other.\<close>

definition char79 :: EVECharacter where
  "char79 = new_character\<lparr>char_name := PStr ''Carol'', char_owner := Some 7, credentials := [6]\<rparr>"

definition char80 :: EVECharacter where
  "char80 = new_character\<lparr>char_name := PStr ''Dave'', char_owner := Some 7, credentials := [6, 9]\<rparr>"

definition world_stale :: world where
  "world_stale =
    world0\<lparr>Credentials := [6 \<mapsto> cred 6 1006 ''Character'' 8 (Some ''Character''),
                           9 \<mapsto> cred 9 1009 ''Character'' 8 None],
           Characters := [PInt 79 \<mapsto> char79, PInt 80 \<mapsto> char80]\<rparr>"

text \<open>The same environment with a recommended mask that a key of mask 8 does not
  satisfy.\<close>

definition env_strict :: env where
  "env_strict = env0\<lparr>recommended_key_mask := ''16''\<rparr>"

section \<open>Basic facts\<close>

lemmas py_int_simps = py_int_def strip_def is_space_def unsigned_val_def digit_val_def

lemma mask_getter_known:
  "kind self \<in> {Some ''Account'', Some ''Character'', Some ''Corporation''} \<Longrightarrow>
   mask_getter self w =
     (Some (if kind self = Some ''Corporation'' then EVECorporationKeyMask (raw_mask self)
            else EVECharacterKeyMask (raw_mask self)), w)"
  by (auto simp: mask_getter_def)

lemma mask_has_access_known:
  "kind self \<in> {Some ''Account'', Some ''Character'', Some ''Corporation''} \<Longrightarrow>
   mask_has_access e self m w =
     (Inr (has_access e (if kind self = Some ''Corporation'' then EVECorporationKeyMask (raw_mask self)
            else EVECharacterKeyMask (raw_mask self)) m), w)"
  by (simp add: mask_has_access_def mask_getter_known)

lemma kind_acceptable_iff:
  "kind_acceptable e self \<longleftrightarrow>
     kind self = Some (recommended_key_kind e) \<or>
     recommended_key_kind e = ''Character'' \<and> kind self = Some ''Account''"
  by (auto simp: kind_acceptable_def Let_def)

lemma mask_has_access_eq:
  "mask_has_access e self m w =
     (if known_kind self then Inr (has_access e (key_mask_of self) m) else Inl AttributeError,
      w\<lparr>logged := logged w @ view_log self\<rparr>)"
  by (auto simp: mask_has_access_def mask_getter_def known_kind_def key_mask_of_def view_log_def log_msg_def)

lemma character_view_eq:
  "character_view e self info cid w =
     (view_of e self info cid, w\<lparr>logged := logged w @ view_log self\<rparr>)"
  by (simp add: character_view_def mask_has_access_eq view_of_def) (simp add: view_log_def)

lemma map_add_upd_same: "m k = Some v \<Longrightarrow> m ++ [k \<mapsto> v] = m"
  by (rule ext) (simp add: map_add_def)

lemma alliance_eta: "a\<lparr>alliance_name := n\<rparr> = \<lparr>alliance_name = n\<rparr>"
  by (cases a) simp

lemma alliance_eq_iff: "(a = \<lparr>alliance_name = n\<rparr>) = (alliance_name a = n)"
  by (cases a) simp

lemma corporation_eta: "c\<lparr>corp_name := n, corp_alliance := al\<rparr> = \<lparr>corp_name = n, corp_alliance = al\<rparr>"
  by (cases c) simp

lemma alliance_step_eq:
  assumes "get_or_create_alliance info n w = (al, cr, w1)"
  shows "al = alliance_of info"
    and "correct_alliance_name al cr n w1 =
           w\<lparr>Alliances := Alliances w ++
               (case alliance_of info of None \<Rightarrow> Map.empty | Some aid \<Rightarrow> [aid \<mapsto> \<lparr>alliance_name = n\<rparr>])\<rparr>"
proof -
  have "al = alliance_of info \<and> correct_alliance_name al cr n w1 =
           w\<lparr>Alliances := Alliances w ++
               (case alliance_of info of None \<Rightarrow> Map.empty | Some aid \<Rightarrow> [aid \<mapsto> \<lparr>alliance_name = n\<rparr>])\<rparr>"
  proof (cases "alliance_of info")
    case None
    then have "get_or_create_alliance info n w = (None, False, w)"
      by (auto simp: get_or_create_alliance_def alliance_of_def split: option.splits if_splits)
    with assms have "al = None" "w1 = w" by simp_all
    then show ?thesis using None by (simp add: correct_alliance_name_def)
  next
    case (Some aid)
    then have aid: "info ''allianceID'' = Some aid" "truthy aid"
      by (auto simp: alliance_of_def split: option.splits if_splits)
    show ?thesis
    proof (cases "Alliances w aid")
      case None
      then have "get_or_create_alliance info n w =
          (Some aid, True, w\<lparr>Alliances := (Alliances w)(aid \<mapsto> \<lparr>alliance_name = n\<rparr>)\<rparr>)"
        using aid by (simp add: get_or_create_alliance_def)
      with assms have "al = Some aid" "cr" "w1 = w\<lparr>Alliances := (Alliances w)(aid \<mapsto> \<lparr>alliance_name = n\<rparr>)\<rparr>"
        by simp_all
      then show ?thesis using \<open>alliance_of info = Some aid\<close>
        by (simp add: correct_alliance_name_def)
    next
      case (Some a)
      then have "get_or_create_alliance info n w = (Some aid, False, w)"
        using aid by (simp add: get_or_create_alliance_def)
      with assms have "al = Some aid" "\<not> cr" "w1 = w" by simp_all
      then show ?thesis using \<open>alliance_of info = Some aid\<close> Some
        by (simp add: correct_alliance_name_def alliance_eta alliance_eq_iff fun_upd_idem)
    qed
  qed
  then show "al = alliance_of info"
    and "correct_alliance_name al cr n w1 =
           w\<lparr>Alliances := Alliances w ++
               (case alliance_of info of None \<Rightarrow> Map.empty | Some aid \<Rightarrow> [aid \<mapsto> \<lparr>alliance_name = n\<rparr>])\<rparr>"
    by blast+
qed

lemma corporation_step_eq:
  "get_or_create_corporation corpid cn al w =
     w\<lparr>Corporations := Corporations w ++ [corpid \<mapsto> \<lparr>corp_name = cn, corp_alliance = al\<rparr>]\<rparr>"
proof (cases "Corporations w corpid")
  case None
  then show ?thesis by (simp add: get_or_create_corporation_def)
next
  case (Some c)
  obtain cn0 al0 where c: "c = \<lparr>corp_name = cn0, corp_alliance = al0\<rparr>" by (cases c) auto
  show ?thesis using Some
    by (auto simp add: get_or_create_corporation_def Let_def c fun_upd_idem)
qed

lemma get_membership_eq:
  "get_membership info w =
     (membership_of info,
      w\<lparr>Alliances := Alliances w ++ allys_of info, Corporations := Corporations w ++ corps_of info\<rparr>)"
proof (cases "corporation_name_of info")
  case (Inl x)
  then show ?thesis
    by (simp add: get_membership_def membership_of_def allys_of_def corps_of_def
        corporation_name_of_def Let_def)
next
  case (Inr cn)
  obtain al cr w1 where goc: "get_or_create_alliance info (alliance_name_of info) w = (al, cr, w1)"
    by (cases "get_or_create_alliance info (alliance_name_of info) w") auto
  have al: "al = alliance_of info" by (rule alliance_step_eq(1) [OF goc])
  note st = alliance_step_eq(2) [OF goc, unfolded al]
  show ?thesis
    using Inr goc [unfolded al]
    by (simp add: get_membership_def membership_of_def allys_of_def corps_of_def Let_def
        corporation_name_of_def [symmetric] alliance_name_of_def [symmetric] st corporation_step_eq attr_def
        split: option.splits)
qed

lemma merge_info_eq:
  "merge_info e self info corp ally char =
     (case merge_info e self info corp ally new_character of
        Inl x \<Rightarrow> Inl x
      | Inr k \<Rightarrow> Inr (k\<lparr>credentials := add_credential (cred_id self) (credentials char)\<rparr>))"
  by (cases char)
     (simp add: merge_info_def new_character_def add_credential_def Let_def
        split: sum.splits option.splits)

lemma store_log [simp]: "store (w\<lparr>logged := l\<rparr>) = store w"
  by (simp add: store_def)

lemma store_log_msg [simp]: "store (log_msg l m w) = store w"
  by (simp add: store_def log_msg_def)

lemma store_fields [simp]:
  "Credentials (store w) = Credentials w" "Characters (store w) = Characters w"
  "Corporations (store w) = Corporations w" "Alliances (store w) = Alliances w"
  "duplicates (store w) = duplicates w" "grants (store w) = grants w"
  by (simp_all add: store_def)

lemma apply_no_delta [simp]: "apply_delta n no_delta w = w"
  by (simp add: apply_delta_def no_delta_def)

lemma apply_single:
  "(\<lambda>i. case [cid \<mapsto> cw] i of None \<Rightarrow> m i | Some cw \<Rightarrow> write_char n cw (m i)) =
     m(cid := write_char n cw (m cid))"
  by (rule ext) simp


lemma conf_None_iff:
  "conf u w cid = None \<longleftrightarrow>
     (case Characters w cid of None \<Rightarrow> True | Some c \<Rightarrow> char_owner c = None \<or> char_owner c = Some u)"
  by (auto simp: conf_def split: option.splits)

lemma conf_Some_iff:
  "conf u w cid = Some a \<longleftrightarrow> (\<exists>c. Characters w cid = Some c \<and> char_owner c = Some a \<and> a \<noteq> u)"
  by (auto simp: conf_def split: option.splits)

lemma pull_character_conflict_eq:
  assumes "info ''characterID'' = Some cid" and "conf (owner self) w cid = Some a"
  shows "pull_character e info self w =
           (Inr None, self\<lparr>violation := Some ''Character''\<rparr>,
            w\<lparr>duplicates := insert (owner self, a) (insert (a, owner self) (duplicates w)),
              logged := logged w @ [(''warning'', ''Security violation detected. Multiple accounts trying to register character %s, ID %d. Actual owner is %s. User adding this character is %s.'')]\<rparr>)"
proof -
  from assms(2) obtain c where "Characters w cid = Some c" "char_owner c = Some a" "a \<noteq> owner self"
    by (auto simp: conf_Some_iff)
  then show ?thesis using assms(1)
    by (auto simp: pull_character_def attr_def add_duplicate_def log_msg_def)
qed

lemma merge_info_credentials:
  "merge_info e self info corp ally char = Inr k \<Longrightarrow>
   credentials k = add_credential (cred_id self) (credentials char)"
  by (auto simp: merge_info_def add_credential_def Let_def split: sum.splits option.splits)

lemma merge_info_loaded:
  "merge_info e self info corp ally (loaded w cid) =
     (case merge_info e self info corp ally new_character of
        Inl x \<Rightarrow> Inl x
      | Inr k \<Rightarrow> Inr (k\<lparr>credentials := add_credential (cred_id self) (credentials (loaded w cid))\<rparr>))"
proof (cases "Characters w cid")
  case None
  then have l: "loaded w cid = new_character" by (simp add: loaded_def)
  show ?thesis
  proof (cases "merge_info e self info corp ally new_character")
    case (Inl x)
    then show ?thesis by (simp add: l)
  next
    case (Inr k)
    from merge_info_credentials [OF Inr] show ?thesis by (simp add: l Inr)
  qed
next
  case (Some c)
  then have l: "loaded w cid = c" by (simp add: loaded_def)
  show ?thesis unfolding l by (rule merge_info_eq)
qed

lemma pull_character_noconf_eq:
  assumes "info ''characterID'' = Some cid" and "conf (owner self) w cid = None"
  shows "pull_character e info self w =
    (case view_of e self info cid of
       Inl x \<Rightarrow> (Inl x, self,
                  w\<lparr>logged := logged w @ view_log self @
                      [(''warning'', ''An error occured while querying data for key %s.'')]\<rparr>)
     | Inr info' \<Rightarrow>
         (case merged_of e self info' of
            Inl x \<Rightarrow> (Inl x, self,
                       w\<lparr>Characters := (Characters w)(cid \<mapsto> loaded w cid),
                         Alliances := Alliances w ++ allys_of info',
                         Corporations := Corporations w ++ corps_of info',
                         logged := logged w @ view_log self\<rparr>)
          | Inr k \<Rightarrow>
              (Inr (Some (cid, k\<lparr>credentials := add_credential (cred_id self) (credentials (loaded w cid))\<rparr>)), self,
               w\<lparr>Characters := (Characters w)(cid \<mapsto>
                     k\<lparr>credentials := add_credential (cred_id self) (credentials (loaded w cid))\<rparr>),
                 Alliances := Alliances w ++ allys_of info',
                 Corporations := Corporations w ++ corps_of info',
                 logged := logged w @ view_log self\<rparr>)))"
proof -
  define new where "new = (Characters w cid = None)"
  define w0 where "w0 = (if new then w\<lparr>Characters := (Characters w)(cid \<mapsto> new_character)\<rparr> else w)"
  have w0: "w0 = w\<lparr>Characters := (Characters w)(cid \<mapsto> loaded w cid)\<rparr>"
    by (cases "Characters w cid") (simp_all add: w0_def new_def loaded_def fun_upd_idem)
  have nc: "\<not> (\<not> new \<and> char_owner (loaded w cid) \<noteq> None \<and> Some (owner self) \<noteq> char_owner (loaded w cid))"
    using assms(2) by (cases "Characters w cid") (auto simp: conf_None_iff new_def loaded_def)
  have start: "(case Characters w cid of
                   None \<Rightarrow> (new_character, True, w\<lparr>Characters := (Characters w)(cid \<mapsto> new_character)\<rparr>)
                 | Some c \<Rightarrow> (c, False, w)) = (loaded w cid, new, w0)"
    by (cases "Characters w cid") (simp_all add: w0_def new_def loaded_def)
  have pc: "pull_character e info self w =
      (case character_view e self info cid w0 of
                  (Inl x, w1) \<Rightarrow>
                    (let w2 = log_msg ''warning'' ''An error occured while querying data for key %s.'' w1
                     in (Inl x, self,
                         if new then w2\<lparr>Characters := (Characters w2)(cid := None)\<rparr> else w2))
                | (Inr info', w1) \<Rightarrow>
                    (case get_membership info' w1 of
                       (Inl x, w2) \<Rightarrow> (Inl x, self, w2)
                     | (Inr (corp, ally), w2) \<Rightarrow>
                         (case merge_info e self info' corp ally (loaded w cid) of
                            Inl x \<Rightarrow> (Inl x, self, w2)
                          | Inr char' \<Rightarrow>
                              (Inr (Some (cid, char')), self,
                               w2\<lparr>Characters := (Characters w2)(cid \<mapsto> char')\<rparr>))))"
    using nc by (simp add: pull_character_def attr_def assms(1) start del: not_None_eq) (elim disjE; simp)
  show ?thesis
  proof (cases "view_of e self info cid")
    case (Inl x)
    show ?thesis
      by (cases "Characters w cid")
         (simp_all add: pc character_view_eq Inl log_msg_def Let_def w0_def new_def fun_upd_idem)
  next
    case (Inr info')
    show ?thesis
    proof (cases "membership_of info'")
      case (Inl x)
      then show ?thesis
        by (simp add: pc character_view_eq Inr get_membership_eq merged_of_def w0)
    next
      case mem: (Inr p)
      obtain corp ally where p: "p = (corp, ally)" by (cases p)
      show ?thesis
        by (cases "merge_info e self info' corp ally new_character")
           (simp_all add: pc character_view_eq Inr get_membership_eq merged_of_def w0 mem p
              merge_info_loaded)
    qed
  qed
qed

lemma world_eqI:
  "\<lbrakk>Credentials a = Credentials b; \<And>i. Characters a i = Characters b i; Corporations a = Corporations b;
    Alliances a = Alliances b; duplicates a = duplicates b; grants a = grants b;
    logged a = logged b\<rbrakk> \<Longrightarrow> a = (b::world)"
proof -
  assume "\<And>i. Characters a i = Characters b i"
  then have "Characters a = Characters b" by (rule ext)
  moreover assume "Credentials a = Credentials b" "Corporations a = Corporations b"
    "Alliances a = Alliances b" "duplicates a = duplicates b" "grants a = grants b"
    "logged a = logged b"
  ultimately show ?thesis by simp
qed

lemma map_add_twice [simp]: "m ++ d ++ d = m ++ d"
  by (rule ext) (simp add: map_add_def split: option.splits)

lemma apply_delta_fields [simp]:
  "Credentials (apply_delta n d w) = Credentials w"
  "Characters (apply_delta n d w) i =
     (case d_chars d i of None \<Rightarrow> Characters w i | Some cw \<Rightarrow> write_char n cw (Characters w i))"
  "Corporations (apply_delta n d w) = Corporations w ++ d_corps d"
  "Alliances (apply_delta n d w) = Alliances w ++ d_allys d"
  "duplicates (apply_delta n d w) = duplicates w \<union> d_dups d"
  "grants (apply_delta n d w) = grants w"
  "logged (apply_delta n d w) = logged w"
  by (simp_all add: apply_delta_def)

lemma then_delta_fields [simp]:
  "d_chars (then_delta a b) i = then_write (d_chars a i) (d_chars b i)"
  "d_corps (then_delta a b) = d_corps a ++ d_corps b"
  "d_allys (then_delta a b) = d_allys a ++ d_allys b"
  "d_dups (then_delta a b) = d_dups a \<union> d_dups b"
  by (simp_all add: then_delta_def)

lemma add_credential_idem [simp]: "add_credential n (add_credential n ks) = add_credential n ks"
  by (simp add: add_credential_def)

lemma write_char_idem: "write_char n cw (write_char n cw old) = write_char n cw old"
  by (cases cw) (simp_all split: option.splits)

lemma write_char_write:
  "write_char n y (write_char n x old) = write_char n (case y of Ensure \<Rightarrow> x | Merge k \<Rightarrow> Merge k) old"
  by (cases x; cases y; cases old) simp_all

lemma write_then_write:
  "(case then_write a b of None \<Rightarrow> old | Some cw \<Rightarrow> write_char n cw old) =
   (case b of
      None \<Rightarrow> (case a of None \<Rightarrow> old | Some x \<Rightarrow> write_char n x old)
    | Some y \<Rightarrow> write_char n y (case a of None \<Rightarrow> old | Some x \<Rightarrow> write_char n x old))"
  by (cases a; cases b) (auto simp: then_write_def write_char_write split: char_write.splits)

lemma apply_then_delta: "apply_delta n (then_delta a b) w = apply_delta n b (apply_delta n a w)"
  by (rule world_eqI) (auto simp: write_then_write Un_assoc cong: option.case_cong)

lemma apply_delta_idem: "apply_delta n d (apply_delta n d w) = apply_delta n d w"
  by (rule world_eqI) (auto simp: write_char_idem Un_assoc split: option.splits)

lemma store_apply_delta: "store (apply_delta n d w) = apply_delta n d (store w)"
  by (rule world_eqI) (auto simp: store_def cong: option.case_cong)

lemma store_logged [simp]: "logged (store w) = []"
  by (simp add: store_def)

lemma view_of_viol [simp]: "view_of e (self\<lparr>violation := v\<rparr>) info cid = view_of e self info cid"
  by (simp add: view_of_def known_kind_def key_mask_of_def)

lemma merge_info_viol [simp]:
  "merge_info e (self\<lparr>violation := v\<rparr>) info corp ally char = merge_info e self info corp ally char"
  by (simp add: merge_info_def Let_def cong: sum.case_cong option.case_cong)

lemma merged_of_viol [simp]: "merged_of e (self\<lparr>violation := v\<rparr>) info = merged_of e self info"
  by (simp add: merged_of_def cong: sum.case_cong option.case_cong)

lemma row_outcome_viol [simp]:
  "row_outcome e (self\<lparr>violation := v\<rparr>) cf info = row_outcome e self cf info"
  by (simp add: row_outcome_def cong: sum.case_cong option.case_cong)

lemma row_delta_viol [simp]:
  "row_delta e (self\<lparr>violation := v\<rparr>) cf info = row_delta e self cf info"
  by (simp add: row_delta_def cong: sum.case_cong option.case_cong)

lemma rows_outcome_viol [simp]:
  "rows_outcome e (self\<lparr>violation := v\<rparr>) cf rows = rows_outcome e self cf rows"
  by (induction rows) (simp_all cong: outcome.case_cong)

lemma rows_delta_viol [simp]:
  "rows_delta e (self\<lparr>violation := v\<rparr>) cf rows = rows_delta e self cf rows"
  by (induction rows) (simp_all cong: outcome.case_cong)

text \<open>pull_character in terms of the row summary\<close>

lemma pull_character_outcome:
  "map_sum id (map_option fst) (fst (pull_character e info self w)) =
     (case row_outcome e self (conf (owner self) w) info of
        Raises x \<Rightarrow> Inl x | Conflicts \<Rightarrow> Inr None | Pulls cid \<Rightarrow> Inr (Some cid))"
proof (cases "info ''characterID''")
  case None
  then show ?thesis by (simp add: pull_character_def attr_def row_outcome_def)
next
  case id: (Some cid)
  show ?thesis
  proof (cases "conf (owner self) w cid")
    case nc: None
    show ?thesis
      by (simp add: pull_character_noconf_eq [where info=info and cid=cid and self=self and w=w, OF id nc] row_outcome_def id nc
          split: sum.splits)
  next
    case cf: (Some a)
    show ?thesis
      by (simp add: pull_character_conflict_eq [where info=info and cid=cid and self=self and w=w, OF id cf] row_outcome_def id cf)
  qed
qed

lemma pull_character_self_eq:
  "fst (snd (pull_character e info self w)) =
     (if row_outcome e self (conf (owner self) w) info = Conflicts
      then self\<lparr>violation := Some ''Character''\<rparr> else self)"
proof (cases "info ''characterID''")
  case None
  then show ?thesis by (simp add: pull_character_def attr_def row_outcome_def)
next
  case id: (Some cid)
  show ?thesis
  proof (cases "conf (owner self) w cid")
    case nc: None
    show ?thesis
      by (simp add: pull_character_noconf_eq [where info=info and cid=cid and self=self and w=w, OF id nc] row_outcome_def id nc
          split: sum.splits)
  next
    case cf: (Some a)
    show ?thesis
      by (simp add: pull_character_conflict_eq [where info=info and cid=cid and self=self and w=w, OF id cf] row_outcome_def id cf)
  qed
qed

lemma write_loaded: "write_char n Ensure (Characters w cid) = Some (loaded w cid)"
  by (simp add: loaded_def)

lemma pull_character_store:
  "store (snd (snd (pull_character e info self w))) =
     apply_delta (cred_id self) (row_delta e self (conf (owner self) w) info) (store w)"
proof (cases "info ''characterID''")
  case None
  then show ?thesis by (simp add: pull_character_def attr_def row_delta_def)
next
  case id: (Some cid)
  show ?thesis
  proof (cases "conf (owner self) w cid")
    case nc: None
    show ?thesis
    proof (cases "view_of e self info cid")
      case (Inl x)
      then show ?thesis
        by (simp add: pull_character_noconf_eq [where info=info and cid=cid and self=self and w=w, OF id nc] row_delta_def id nc)
    next
      case (Inr info')
      show ?thesis
        by (cases "merged_of e self info'"; rule world_eqI)
           (simp_all add: pull_character_noconf_eq [where info=info and cid=cid and self=self and w=w, OF id nc] row_delta_def id nc Inr loaded_def)
    qed
  next
    case cf: (Some a)
    show ?thesis
      by (rule world_eqI)
         (simp_all add: pull_character_conflict_eq [where info=info and cid=cid and self=self and w=w, OF id cf] row_delta_def id cf no_delta_def)
  qed
qed

lemma conf_cong: "Characters w' cid = Characters w cid \<Longrightarrow> conf u w' cid = conf u w cid"
  by (simp add: conf_def)

lemma merge_info_owner:
  "merge_info e self info corp ally char = Inr k \<Longrightarrow> char_owner k = Some (owner self)"
  by (auto simp: merge_info_def Let_def split: sum.splits option.splits)

lemma merged_of_owner: "merged_of e self info = Inr k \<Longrightarrow> char_owner k = Some (owner self)"
  by (auto simp: merged_of_def merge_info_owner split: sum.splits prod.splits)

lemma d_chars_row_delta:
  "d_chars (row_delta e self cf info) i = Some cw \<Longrightarrow>
     info ''characterID'' = Some i \<and> cf i = None \<and>
     (\<exists>info'. view_of e self info i = Inr info' \<and>
        cw = (case merged_of e self info' of Inl x \<Rightarrow> Ensure | Inr k \<Rightarrow> Merge k))"
  by (auto simp: row_delta_def no_delta_def split: option.splits sum.splits if_splits)

lemma conf_apply_row_delta:
  assumes "cf = conf (owner self) w"
  shows "conf (owner self) (apply_delta (cred_id self) (row_delta e self cf info) w) i = conf (owner self) w i"
proof (cases "d_chars (row_delta e self cf info) i")
  case None
  then show ?thesis by (simp add: conf_def)
next
  case (Some cw)
  from d_chars_row_delta [OF Some] obtain info' where
    nc: "cf i = None" and cw: "cw = (case merged_of e self info' of Inl x \<Rightarrow> Ensure | Inr k \<Rightarrow> Merge k)"
    by blast
  have c0: "conf (owner self) w i = None" using nc assms by simp
  show ?thesis
  proof (cases "merged_of e self info'")
    case (Inl x)
    then show ?thesis using Some cw c0
      by (auto simp: conf_def new_character_def split: option.splits)
  next
    case (Inr k)
    from merged_of_owner [OF Inr] show ?thesis using Some cw c0 Inr
      by (simp add: conf_def)
  qed
qed

lemma conf_store [simp]: "conf u (store w) = conf u w"
  by (rule ext) (simp add: conf_def)

lemma conf_pull_character:
  "conf (owner self) (snd (snd (pull_character e info self w))) = conf (owner self) w"
proof (rule ext)
  fix i
  have "conf (owner self) (snd (snd (pull_character e info self w))) i =
        conf (owner self) (store (snd (snd (pull_character e info self w)))) i" by simp
  also have "\<dots> = conf (owner self) (store w) i"
    unfolding pull_character_store
    using conf_apply_row_delta [of "conf (owner self) w" self "store w" e info i] by simp
  finally show "conf (owner self) (snd (snd (pull_character e info self w))) i = conf (owner self) w i"
    by simp
qed

lemma pull_rows_summary:
  "pull_rows e rows self ok pulled w = (res, self', w') \<Longrightarrow>
   rows_outcome e self (conf (owner self) w) rows = (x, c, p) \<Longrightarrow>
     res = (case x of Some ex \<Rightarrow> Inl ex | None \<Rightarrow> Inr (ok \<and> \<not> c, pulled \<union> p)) \<and>
     self' = (if c then self\<lparr>violation := Some ''Character''\<rparr> else self) \<and>
     store w' = apply_delta (cred_id self) (rows_delta e self (conf (owner self) w) rows) (store w)"
proof (induction rows arbitrary: self ok pulled w x c p)
  case Nil
  then show ?case by auto
next
  case (Cons r rs)
  show ?case
  proof (cases "r ''corporationName'' = None")
    case True
    from Cons.prems True have
      "pull_rows e rs self ok pulled (log_msg ''error'' ''corporationName missing for key %d'' w) = (res, self', w')"
      by simp
    moreover have "conf (owner self) (log_msg ''error'' ''corporationName missing for key %d'' w) = conf (owner self) w"
      by (rule ext) (simp add: conf_def log_msg_def)
    ultimately show ?thesis
      using Cons.IH [of self ok pulled "log_msg ''error'' ''corporationName missing for key %d'' w" x c p]
        Cons.prems(2) True by simp
  next
    case False
    then have nn: "(r ''corporationName'' = None) = False" by simp
    let ?cf = "conf (owner self) w"
    obtain r1 self1 w1 where pc: "pull_character e r self w = (r1, self1, w1)"
      by (cases "pull_character e r self w") auto
    have o: "map_sum id (map_option fst) r1 =
       (case row_outcome e self ?cf r of
        Raises x \<Rightarrow> Inl x | Conflicts \<Rightarrow> Inr None | Pulls cid \<Rightarrow> Inr (Some cid))"
      using pull_character_outcome [of e r self w] pc by simp
    have s1: "self1 = (if row_outcome e self ?cf r = Conflicts
      then self\<lparr>violation := Some ''Character''\<rparr> else self)"
      using pull_character_self_eq [of e r self w] pc by simp
    have st1: "store w1 = apply_delta (cred_id self) (row_delta e self ?cf r) (store w)"
      using pull_character_store [of e r self w] pc by simp
    have cf1: "conf (owner self1) w1 = ?cf"
      using conf_pull_character [of self e r w] pc s1 by auto
    have id1: "cred_id self1 = cred_id self" using s1 by auto
    have rd1: "rows_delta e self1 ?cf rs = rows_delta e self ?cf rs"
      "rows_outcome e self1 ?cf rs = rows_outcome e self ?cf rs" using s1 by auto
    show ?thesis
    proof (cases "row_outcome e self ?cf r")
      case (Raises ex)
      with o have r1: "r1 = Inl ex" by (cases r1) auto
      have "rows_outcome e self ?cf (r # rs) = (Some ex, False, {})"
        using Raises by (simp add: nn)
      with Cons.prems(2) have xcp: "x = Some ex" "c = False" "p = {}" by simp_all
      have rd: "rows_delta e self ?cf (r # rs) = row_delta e self ?cf r"
        using Raises by (simp add: nn)
      have "pull_rows e (r # rs) self ok pulled w = (Inl ex, self1, w1)"
        using pc r1 by (simp add: nn)
      with Cons.prems(1) have "res = Inl ex" "self' = self1" "w' = w1" by simp_all
      then show ?thesis
        unfolding rd using xcp s1 st1 Raises by simp
    next
      case Conflicts
      with o have r1: "r1 = Inr None" by (cases r1) auto
      obtain x' c' p' where ro: "rows_outcome e self ?cf rs = (x', c', p')"
        by (cases "rows_outcome e self ?cf rs") auto
      have "rows_outcome e self ?cf (r # rs) = (x', True, p')"
        using Conflicts ro by (simp add: nn)
      with Cons.prems(2) have xcp: "x = x'" "c = True" "p = p'" by simp_all
      have rd: "rows_delta e self ?cf (r # rs) = then_delta (row_delta e self ?cf r) (rows_delta e self ?cf rs)"
        using Conflicts by (simp add: nn)
      from Cons.prems(1) pc r1
      have "pull_rows e rs self1 False pulled w1 = (res, self', w')" by (simp add: nn)
      from Cons.IH [OF this, unfolded cf1 rd1, OF ro]
      have "res = (case x' of None \<Rightarrow> Inr (False \<and> \<not> c', pulled \<union> p') | Some x \<Rightarrow> Inl x)"
        "self' = (if c' then self1\<lparr>violation := Some ''Character''\<rparr> else self1)"
        "store w' = apply_delta (cred_id self1) (rows_delta e self ?cf rs) (store w1)"
        by simp_all
      then show ?thesis
        unfolding rd apply_then_delta using xcp s1 st1 id1 Conflicts by (cases x') simp_all
    next
      case (Pulls cid)
      with o obtain ch where r1: "r1 = Inr (Some (cid, ch))" by (cases r1) auto
      obtain x' c' p' where ro: "rows_outcome e self ?cf rs = (x', c', p')"
        by (cases "rows_outcome e self ?cf rs") auto
      have "rows_outcome e self ?cf (r # rs) = (x', c', insert cid p')"
        using Pulls ro by (simp add: nn)
      with Cons.prems(2) have xcp: "x = x'" "c = c'" "p = insert cid p'" by simp_all
      have rd: "rows_delta e self ?cf (r # rs) = then_delta (row_delta e self ?cf r) (rows_delta e self ?cf rs)"
        using Pulls by (simp add: nn)
      from Cons.prems(1) pc r1
      have "pull_rows e rs self1 ok (insert cid pulled) w1 = (res, self', w')" by (simp add: nn)
      from Cons.IH [OF this, unfolded cf1 rd1, OF ro]
      have "res = (case x' of None \<Rightarrow> Inr (ok \<and> \<not> c', insert cid pulled \<union> p') | Some x \<Rightarrow> Inl x)"
        "self' = (if c' then self1\<lparr>violation := Some ''Character''\<rparr> else self1)"
        "store w' = apply_delta (cred_id self1) (rows_delta e self ?cf rs) (store w1)"
        by simp_all
      then show ?thesis
        unfolding rd apply_then_delta using xcp s1 st1 id1 Pulls by (cases x') simp_all
    qed
  qed
qed

lemma pull_rows_self:
  "fst (snd (pull_rows e rows self ok pulled w)) = self \<or>
   fst (snd (pull_rows e rows self ok pulled w)) = self\<lparr>violation := Some ''Character''\<rparr>"
proof -
  obtain res self' w' where pr: "pull_rows e rows self ok pulled w = (res, self', w')"
    by (cases "pull_rows e rows self ok pulled w") auto
  obtain x c p where ro: "rows_outcome e self (conf (owner self) w) rows = (x, c, p)"
    by (cases "rows_outcome e self (conf (owner self) w) rows") auto
  from pull_rows_summary [OF pr ro] show ?thesis by (auto simp: pr)
qed



lemma world_store_eqI:
  "\<lbrakk>Credentials a = Credentials b; \<And>i. Characters a i = Characters b i;
    Corporations a = Corporations b; Alliances a = Alliances b; duplicates a = duplicates b;
    grants a = grants b\<rbrakk> \<Longrightarrow> store a = store b"
  by (rule world_eqI) simp_all

lemma eval_violation_eq:
  assumes "py_int (recommended_key_mask e) = None \<or> known_kind s \<or> violation s = Some ''Character''
           \<or> \<not> kind_acceptable e s"
  shows "fst (eval_violation e s w) = Inr ()"
    and "fst (snd (eval_violation e s w)) = s\<lparr>violation := evaluated e s\<rparr>"
    and "Characters (snd (snd (eval_violation e s w))) = Characters w"
    and "Corporations (snd (snd (eval_violation e s w))) = Corporations w"
    and "Alliances (snd (snd (eval_violation e s w))) = Alliances w"
    and "duplicates (snd (snd (eval_violation e s w))) = duplicates w"
    and "grants (snd (snd (eval_violation e s w))) = grants w"
    and "Credentials (snd (snd (eval_violation e s w))) = Credentials w \<or>
         Credentials (snd (snd (eval_violation e s w))) =
           (Credentials w)(cred_id s \<mapsto> s\<lparr>violation := evaluated e s\<rparr>)"
proof -
  consider (bad) "py_int (recommended_key_mask e) = None"
    | (char) r where "py_int (recommended_key_mask e) = Some r" "violation s = Some ''Character''"
    | (kind) r where "py_int (recommended_key_mask e) = Some r" "violation s \<noteq> Some ''Character''"
        "\<not> kind_acceptable e s"
    | (mask) r where "py_int (recommended_key_mask e) = Some r" "violation s \<noteq> Some ''Character''"
        "kind_acceptable e s" "known_kind s"
    using assms by (cases "py_int (recommended_key_mask e)") auto
  then have
    "fst (eval_violation e s w) = Inr () \<and>
     fst (snd (eval_violation e s w)) = s\<lparr>violation := evaluated e s\<rparr> \<and>
     Characters (snd (snd (eval_violation e s w))) = Characters w \<and>
     Corporations (snd (snd (eval_violation e s w))) = Corporations w \<and>
     Alliances (snd (snd (eval_violation e s w))) = Alliances w \<and>
     duplicates (snd (snd (eval_violation e s w))) = duplicates w \<and>
     grants (snd (snd (eval_violation e s w))) = grants w \<and>
     (Credentials (snd (snd (eval_violation e s w))) = Credentials w \<or>
         Credentials (snd (snd (eval_violation e s w))) =
           (Credentials w)(cred_id s \<mapsto> s\<lparr>violation := evaluated e s\<rparr>))"
  proof cases
    case bad
    then show ?thesis by (simp add: eval_violation_def evaluated_def log_msg_def)
  next
    case char
    then show ?thesis by (simp add: eval_violation_def evaluated_def)
  next
    case kind
    then show ?thesis by (simp add: eval_violation_def evaluated_def save_def Let_def)
  next
    case mask
    then show ?thesis
      by (simp add: eval_violation_def evaluated_def save_def Let_def mask_has_access_eq view_log_def)
  qed
  then show "fst (eval_violation e s w) = Inr ()"
    and "fst (snd (eval_violation e s w)) = s\<lparr>violation := evaluated e s\<rparr>"
    and "Characters (snd (snd (eval_violation e s w))) = Characters w"
    and "Corporations (snd (snd (eval_violation e s w))) = Corporations w"
    and "Alliances (snd (snd (eval_violation e s w))) = Alliances w"
    and "duplicates (snd (snd (eval_violation e s w))) = duplicates w"
    and "grants (snd (snd (eval_violation e s w))) = grants w"
    and "Credentials (snd (snd (eval_violation e s w))) = Credentials w \<or>
         Credentials (snd (snd (eval_violation e s w))) =
           (Credentials w)(cred_id s \<mapsto> s\<lparr>violation := evaluated e s\<rparr>)"
    by blast+
qed

lemma detach_cong: "cred_id s' = cred_id s \<Longrightarrow> detach s' w c = detach s w c"
  by (simp add: detach_def other_live_credential_def)

lemma detach_store_cong: "Credentials w' = Credentials w \<Longrightarrow> detach s w' = detach s w"
  by (simp add: fun_eq_iff detach_def other_live_credential_def)

lemma detach_outdated_fields [simp]:
  "Credentials (detach_outdated s p w) = Credentials w"
  "Characters (detach_outdated s p w) i =
     (case Characters w i of
        None \<Rightarrow> None
      | Some c \<Rightarrow> if attached s c \<and> i \<notin> p then Some (detach s w c) else Some c)"
  "Corporations (detach_outdated s p w) = Corporations w"
  "Alliances (detach_outdated s p w) = Alliances w"
  "duplicates (detach_outdated s p w) = duplicates w"
  "grants (detach_outdated s p w) = grants w"
  "logged (detach_outdated s p w) = logged w"
  by (simp_all add: detach_outdated_def)

lemma revoke_grants_fields [simp]:
  "Credentials (revoke_grants s w) = Credentials w"
  "Characters (revoke_grants s w) = Characters w"
  "Corporations (revoke_grants s w) = Corporations w"
  "Alliances (revoke_grants s w) = Alliances w"
  "duplicates (revoke_grants s w) = duplicates w"
  "logged (revoke_grants s w) = logged w"
  by (simp_all add: revoke_grants_def)

lemma save_fields [simp]:
  "Credentials (save s w) = (Credentials w)(cred_id s \<mapsto> s)"
  "Characters (save s w) = Characters w"
  "Corporations (save s w) = Corporations w"
  "Alliances (save s w) = Alliances w"
  "duplicates (save s w) = duplicates w"
  "grants (save s w) = grants w"
  "logged (save s w) = logged w"
  by (simp_all add: save_def)

text \<open>The predicate by which grants are kept.\<close>

lemma grants_revoke:
  "grants (revoke_grants s w) =
     filter (\<lambda>g. case Characters w (snd g) of
                    None \<Rightarrow> True
                  | Some c \<Rightarrow> \<not> (attached s c \<and> \<not> char_has_verified_key w c)) (grants w)"
  by (simp add: revoke_grants_def)

lemma char_has_verified_key_cong:
  "Credentials a = Credentials b \<Longrightarrow> char_has_verified_key a = char_has_verified_key b"
  by (rule ext) (simp add: char_has_verified_key_def)

lemma grants_revoke_cong:
  assumes "Characters a = Characters b" and "Credentials a = Credentials b" and "grants a = grants b"
  shows "grants (revoke_grants s a) = grants (revoke_grants s b)"
  unfolding grants_revoke assms(1,3) char_has_verified_key_cong [OF assms(2)] ..

lemma reconcile_eq:
  assumes rows: "characters_row result \<noteq> []"
    and pr: "pull_rows e (characters_row result) s True {} w = (Inr (ok, pulled), s1, w1)"
    and ok: "py_int (recommended_key_mask e) = None \<or> known_kind s"
  defines "s2 \<equiv> (if ok \<and> violation s1 = Some ''Character'' then s1\<lparr>violation := None\<rparr> else s1)"
  defines "s4 \<equiv> s2\<lparr>violation := evaluated e s2, modified := utcnow e\<rparr>"
  shows "\<exists>w4. reconcile e result s w = (Inr (Some s4), s4, w4) \<and>
           Credentials w4 = (Credentials w1)(cred_id s \<mapsto> s4) \<and>
           (\<forall>i. Characters w4 i = Characters (detach_outdated s pulled w1) i) \<and>
           Corporations w4 = Corporations w1 \<and> Alliances w4 = Alliances w1 \<and>
           duplicates w4 = duplicates w1 \<and>
           grants w4 = grants (revoke_grants s (save s4 (detach_outdated s pulled w1)))"
proof -
  from pull_rows_self [of e "characters_row result" s True "{}" w] pr
  have s1: "s1 = s \<or> s1 = s\<lparr>violation := Some ''Character''\<rparr>" by simp
  then have k2: "known_kind s2 = known_kind s" "cred_id s2 = cred_id s"
    by (auto simp: s2_def known_kind_def)
  have att: "attached s2 = attached s" "attached s4 = attached s"
    using k2 by (auto simp: attached_def s4_def fun_eq_iff)
  define w2 where "w2 = detach_outdated s2 pulled w1"
  have d2: "w2 = detach_outdated s pulled w1"
    by (simp add: w2_def detach_outdated_def att detach_cong [OF k2(2)] cong: option.case_cong if_cong)
  have ok2: "py_int (recommended_key_mask e) = None \<or> known_kind s2 \<or> violation s2 = Some ''Character''
           \<or> \<not> kind_acceptable e s2"
    using ok k2 by auto
  note ev = eval_violation_eq [OF ok2, of w2]
  obtain r3 s3 w3 where e3: "eval_violation e s2 w2 = (r3, s3, w3)"
    by (cases "eval_violation e s2 w2") auto
  have r3: "r3 = Inr ()" and s3: "s3 = s2\<lparr>violation := evaluated e s2\<rparr>"
    using ev(1,2) e3 by simp_all
  have w3: "Characters w3 = Characters w2" "Corporations w3 = Corporations w2"
    "Alliances w3 = Alliances w2" "duplicates w3 = duplicates w2" "grants w3 = grants w2"
    "Credentials w3 = Credentials w2 \<or> Credentials w3 = (Credentials w2)(cred_id s2 \<mapsto> s3)"
    using ev(3-8) e3 s3 by simp_all
  have s4: "s4 = s3\<lparr>modified := utcnow e\<rparr>" by (simp add: s4_def s3)
  have rec: "reconcile e result s w = (Inr (Some s4), s4, revoke_grants s4 (save s4 w3))"
    using rows pr e3 r3 by (simp add: reconcile_def Let_def s2_def [symmetric] w2_def [symmetric] s4)
  have id4: "cred_id s4 = cred_id s" using k2 by (simp add: s4_def)
  have cr: "(Credentials w3)(cred_id s \<mapsto> s4) = (Credentials w1)(cred_id s \<mapsto> s4)"
    using w3(6) k2 by (auto simp: d2)
  have rv: "revoke_grants s4 (save s4 w3) = revoke_grants s (save s4 w3)"
    by (simp add: revoke_grants_def att cong: option.case_cong)
  have gr: "grants (revoke_grants s (save s4 w3)) =
            grants (revoke_grants s (save s4 (detach_outdated s pulled w1)))"
    by (rule grants_revoke_cong) (simp_all add: w3 d2 cr id4 fun_eq_iff)
  show ?thesis
    unfolding rec rv
    by (rule exI [of _ "revoke_grants s (save s4 w3)"]) (simp add: id4 cr w3 d2 gr)
qed

lemma row_outcome_Pulls:
  "row_outcome e s cf info = Pulls cid \<Longrightarrow> info ''characterID'' = Some cid"
  by (auto simp: row_outcome_def split: option.splits sum.splits)

lemma row_delta_chars_Pulls:
  "d_chars (row_delta e s cf info) i = Some cw \<Longrightarrow>
     row_outcome e s cf info = Pulls i \<or> (\<exists>x. row_outcome e s cf info = Raises x)"
  by (auto simp: row_delta_def row_outcome_def no_delta_def split: option.splits sum.splits if_splits)

lemma row_delta_chars_Conflicts:
  "row_outcome e s cf info = Conflicts \<Longrightarrow> d_chars (row_delta e s cf info) i = None"
  by (auto simp: row_delta_def row_outcome_def no_delta_def split: option.splits sum.splits if_splits)

lemma rows_outcome_pulled:
  "rows_outcome e s cf rows = (x, c, p) \<Longrightarrow> i \<in> p \<Longrightarrow>
     \<exists>r\<in>set rows. r ''corporationName'' \<noteq> None \<and> r ''characterID'' = Some i"
proof (induction rows arbitrary: x c p)
  case Nil
  then show ?case by simp
next
  case (Cons r rs)
  show ?case
  proof (cases "r ''corporationName'' = None")
    case True
    with Cons.prems have "rows_outcome e s cf rs = (x, c, p)" by simp
    from Cons.IH [OF this Cons.prems(2)] show ?thesis by auto
  next
    case False
    then have nn: "(r ''corporationName'' = None) = False" by simp
    obtain x' c' p' where ro: "rows_outcome e s cf rs = (x', c', p')"
      by (cases "rows_outcome e s cf rs") auto
    show ?thesis
    proof (cases "row_outcome e s cf r")
      case (Raises ex)
      with Cons.prems show ?thesis by (simp add: nn)
    next
      case Conflicts
      with Cons.prems ro have "p = p'" by (simp add: nn)
      with Cons.IH [OF ro] Cons.prems(2) show ?thesis by auto
    next
      case (Pulls cid)
      with Cons.prems ro have p: "p = insert cid p'" by (simp add: nn)
      show ?thesis
      proof (cases "i = cid")
        case True
        with row_outcome_Pulls [OF Pulls] False show ?thesis by auto
      next
        case ne: False
        with p Cons.prems(2) have "i \<in> p'" by simp
        with Cons.IH [OF ro] show ?thesis by auto
      qed
    qed
  qed
qed

lemma rows_delta_chars:
  "rows_outcome e s cf rows = (None, c, p) \<Longrightarrow>
   d_chars (rows_delta e s cf rows) i = Some cw \<Longrightarrow> i \<in> p"
proof (induction rows arbitrary: c p cw)
  case Nil
  then show ?case by (simp add: no_delta_def)
next
  case (Cons r rs)
  show ?case
  proof (cases "r ''corporationName'' = None")
    case True
    with Cons.prems have "rows_outcome e s cf rs = (None, c, p)"
      "d_chars (rows_delta e s cf rs) i = Some cw" by simp_all
    from Cons.IH [OF this] show ?thesis .
  next
    case False
    then have nn: "(r ''corporationName'' = None) = False" by simp
    obtain x' c' p' where ro: "rows_outcome e s cf rs = (x', c', p')"
      by (cases "rows_outcome e s cf rs") auto
    show ?thesis
    proof (cases "row_outcome e s cf r")
      case (Raises ex)
      with Cons.prems show ?thesis by (simp add: nn)
    next
      case Conflicts
      with Cons.prems ro have xp: "x' = None" "p = p'" by (simp_all add: nn)
      from Cons.prems(2) Conflicts
      have "then_write (d_chars (row_delta e s cf r) i) (d_chars (rows_delta e s cf rs) i) = Some cw"
        by (simp add: nn)
      then have "d_chars (rows_delta e s cf rs) i = Some cw"
        by (simp add: row_delta_chars_Conflicts [OF Conflicts] then_write_def
            split: option.splits char_write.splits)
      from Cons.IH [OF ro [unfolded xp(1)] this] xp show ?thesis by simp
    next
      case (Pulls cid)
      with Cons.prems ro have xp: "x' = None" "p = insert cid p'" by (simp_all add: nn)
      from Cons.prems(2) Pulls
      have tw: "then_write (d_chars (row_delta e s cf r) i) (d_chars (rows_delta e s cf rs) i) = Some cw"
        by (simp add: nn)
      show ?thesis
      proof (cases "d_chars (rows_delta e s cf rs) i")
        case None
        with tw have "d_chars (row_delta e s cf r) i = Some cw" by (simp add: then_write_def)
        from row_delta_chars_Pulls [OF this] Pulls have "i = cid" by auto
        then show ?thesis using xp by simp
      next
        case (Some cw')
        from Cons.IH [OF ro [unfolded xp(1)] Some] xp show ?thesis by simp
      qed
    qed
  qed
qed

lemma set_verified_eq:
  "py_int (recommended_key_mask e) = None \<Longrightarrow>
     set_verified e s w =
       (Inr (), s\<lparr>verified := False\<rparr>,
        w\<lparr>logged := logged w @ [(''warning'', ''core.recommended_key_mask MUST be an integer.'')]\<rparr>)"
  "py_int (recommended_key_mask e) = Some r \<Longrightarrow> known_kind s \<Longrightarrow>
     set_verified e s w =
       (Inr (), s\<lparr>verified := (has_access e (key_mask_of s) r \<and> kind_acceptable e s)\<rparr>, w)"
  "py_int (recommended_key_mask e) = Some r \<Longrightarrow> \<not> known_kind s \<Longrightarrow>
     set_verified e s w = (Inl AttributeError, s, w\<lparr>logged := logged w @ view_log s\<rparr>)"
  by (simp_all add: set_verified_def mask_has_access_eq log_msg_def view_log_def)

lemma set_key_info_frame:
  "set_key_info e result s = (r, s1) \<Longrightarrow>
     cred_id s1 = cred_id s \<and> owner s1 = owner s \<and> violation s1 = violation s \<and>
     key s1 = key s \<and> code s1 = code s"
  by (auto simp: set_key_info_def Let_def split: option.splits if_splits)

lemma set_verified_frame:
  "set_verified e s w = (Inr u, s2, w2) \<Longrightarrow>
     (py_int (recommended_key_mask e) = None \<or> known_kind s) \<and>
     (\<exists>v. s2 = s\<lparr>verified := v\<rparr>) \<and> store w2 = store w"
  by (cases "py_int (recommended_key_mask e)"; cases "known_kind s")
     (auto simp: set_verified_eq)

section \<open>Violation evaluation\<close>

text \<open>
  C4 (as the code has it). When the configured recommended mask is an integer,
  \<^verbatim>\<open>eval_violation\<close> checks in this order: a violation that is already "Character"
  is left alone and nothing is saved; else a kind that is not acceptable (neither
  the recommended kind, nor Account where Character is recommended) gives "Kind";
  else, for the three known kinds, a mask that does not satisfy the recommended
  mask gives "Mask"; else the violation is cleared to None; each of the last three
  saves the record. When the configured mask is not an integer, nothing changes
  but the log, whatever the kind and the violation.
\<close>

theorem eval_violation_order:
  "let acceptable = (kind self = Some (recommended_key_kind e) \<or>
                     recommended_key_kind e = ''Character'' \<and> kind self = Some ''Account'');
       known = (kind self \<in> {Some ''Account'', Some ''Character'', Some ''Corporation''});
       km = (if kind self = Some ''Corporation'' then EVECorporationKeyMask (raw_mask self)
             else EVECharacterKeyMask (raw_mask self))
   in (py_int (recommended_key_mask e) = None \<longrightarrow>
         eval_violation e self w =
           (Inr (), self,
            w\<lparr>logged := logged w @ [(''warning'', ''core.recommended_key_mask MUST be an integer.'')]\<rparr>)) \<and>
      (\<forall>m. py_int (recommended_key_mask e) = Some m \<longrightarrow>
         (violation self = Some ''Character'' \<longrightarrow> eval_violation e self w = (Inr (), self, w)) \<and>
         (violation self \<noteq> Some ''Character'' \<and> \<not> acceptable \<longrightarrow>
            eval_violation e self w =
              (Inr (), self\<lparr>violation := Some ''Kind''\<rparr>, save (self\<lparr>violation := Some ''Kind''\<rparr>) w)) \<and>
         (violation self \<noteq> Some ''Character'' \<and> acceptable \<and> known \<and> \<not> has_access e km m \<longrightarrow>
            eval_violation e self w =
              (Inr (), self\<lparr>violation := Some ''Mask''\<rparr>, save (self\<lparr>violation := Some ''Mask''\<rparr>) w)) \<and>
         (violation self \<noteq> Some ''Character'' \<and> acceptable \<and> known \<and> has_access e km m \<longrightarrow>
            eval_violation e self w =
              (Inr (), self\<lparr>violation := None\<rparr>, save (self\<lparr>violation := None\<rparr>) w)))"
  unfolding Let_def
  by (auto simp: eval_violation_def kind_acceptable_iff mask_has_access_known log_msg_def Let_def)

lemma env0_cfg: "py_int (recommended_key_mask env0) = Some 8"
  by (simp add: env0_def py_int_simps)

lemma env_bad_cfg: "py_int (recommended_key_mask env_bad) = None"
  by (simp add: env_bad_def env0_def py_int_simps)

theorem eval_violation_order_witness:
  "eval_violation env0 (cred 1 1001 ''Character'' 12 (Some ''Character'')) world0 =
     (Inr (), cred 1 1001 ''Character'' 12 (Some ''Character''), world0) \<and>
   eval_violation env0 (cred 1 1001 ''Corporation'' 12 None) world0 =
     (Inr (), cred 1 1001 ''Corporation'' 12 (Some ''Kind''),
      save (cred 1 1001 ''Corporation'' 12 (Some ''Kind'')) world0) \<and>
   eval_violation env0 (cred 1 1001 ''Account'' 4 None) world0 =
     (Inr (), cred 1 1001 ''Account'' 4 (Some ''Mask''),
      save (cred 1 1001 ''Account'' 4 (Some ''Mask'')) world0) \<and>
   eval_violation env0 (cred 1 1001 ''Character'' 12 (Some ''Mask'')) world0 =
     (Inr (), cred 1 1001 ''Character'' 12 None,
      save (cred 1 1001 ''Character'' 12 None) world0) \<and>
   eval_violation env_bad (cred 1 1001 ''Character'' 12 (Some ''Mask'')) world0 =
     (Inr (), cred 1 1001 ''Character'' 12 (Some ''Mask''),
      world0\<lparr>logged := [(''warning'', ''core.recommended_key_mask MUST be an integer.'')]\<rparr>)"
  using eval_violation_order [of "cred 1 1001 ''Character'' 12 (Some ''Character'')" env0 world0]
        eval_violation_order [of "cred 1 1001 ''Corporation'' 12 None" env0 world0]
        eval_violation_order [of "cred 1 1001 ''Account'' 4 None" env0 world0]
        eval_violation_order [of "cred 1 1001 ''Character'' 12 (Some ''Mask'')" env0 world0]
        eval_violation_order [of "cred 1 1001 ''Character'' 12 (Some ''Mask'')" env_bad world0]
  by (simp add: Let_def env0_cfg env_bad_cfg) (simp add: cred_def env0_def env_bad_def world0_def)

text \<open>
  The claim as written fails where the configured mask is not an integer: a
  Corporation key under a policy that recommends Character keys has a kind that is
  not acceptable and no "Character" violation, yet its violation is not set to
  "Kind" and nothing is saved.
\<close>

theorem eval_violation_counterexample:
  "violation (cred 1 1001 ''Corporation'' 12 None) \<noteq> Some ''Character'' \<and>
   kind (cred 1 1001 ''Corporation'' 12 None) \<noteq> Some (recommended_key_kind env_bad) \<and>
   kind (cred 1 1001 ''Corporation'' 12 None) \<noteq> Some ''Account'' \<and>
   violation (fst (snd (eval_violation env_bad (cred 1 1001 ''Corporation'' 12 None) world0))) \<noteq> Some ''Kind'' \<and>
   Credentials (snd (snd (eval_violation env_bad (cred 1 1001 ''Corporation'' 12 None) world0))) 1 = None"
  by (simp add: eval_violation_def env_bad_cfg log_msg_def) (simp add: cred_def env_bad_def env0_def world0_def)

section \<open>Ownership conflict\<close>

text \<open>
  C1. When an identity with the payload's identifier exists and has an owner
  other than the owner of the pulling credential, \<^verbatim>\<open>pull_character\<close> returns
  \<^verbatim>\<open>None\<close>, leaves the credential with violation "Character" and records the
  two owners as duplicates of each other, in both directions. Nothing else
  is written: the identity keeps its attributes, its owner and its credential
  list, and no credential row is saved.
\<close>

theorem pull_character_conflict:
  assumes "info ''characterID'' = Some cid"
    and "Characters w cid = Some c"
    and "char_owner c = Some a"
    and "a \<noteq> owner self"
  shows "pull_character e info self w =
           (Inr None, self\<lparr>violation := Some ''Character''\<rparr>,
            w\<lparr>duplicates := insert (owner self, a) (insert (a, owner self) (duplicates w)),
              logged := logged w @ [(''warning'', ''Security violation detected. Multiple accounts trying to register character %s, ID %d. Actual owner is %s. User adding this character is %s.'')]\<rparr>) \<and>
         (owner self, a) \<in> duplicates (snd (snd (pull_character e info self w))) \<and>
         (a, owner self) \<in> duplicates (snd (snd (pull_character e info self w))) \<and>
         Characters (snd (snd (pull_character e info self w))) = Characters w \<and>
         Credentials (snd (snd (pull_character e info self w))) = Credentials w"
proof -
  have "conf (owner self) w cid = Some a"
    using assms by (simp add: conf_def)
  from pull_character_conflict_eq [where info=info and cid=cid and self=self and w=w, OF assms(1) this]
  show ?thesis by simp
qed

theorem pull_character_conflict_witness:
  "row77 ''characterID'' = Some (PInt 77) \<and>
   Characters world_owned (PInt 77) = Some char77 \<and>
   char_owner char77 = Some 8 \<and>
   8 \<noteq> owner (cred 1 1001 ''Character'' 8 None) \<and>
   fst (pull_character env0 row77 (cred 1 1001 ''Character'' 8 None) world_owned) = Inr None \<and>
   violation (fst (snd (pull_character env0 row77 (cred 1 1001 ''Character'' 8 None) world_owned))) =
     Some ''Character'' \<and>
   duplicates (snd (snd (pull_character env0 row77 (cred 1 1001 ''Character'' 8 None) world_owned))) =
     {(7, 8), (8, 7)} \<and>
   Characters (snd (snd (pull_character env0 row77 (cred 1 1001 ''Character'' 8 None) world_owned))) (PInt 77) =
     Some char77"
proof -
  have h: "row77 ''characterID'' = Some (PInt 77)" "Characters world_owned (PInt 77) = Some char77"
    "char_owner char77 = Some 8" "8 \<noteq> owner (cred 1 1001 ''Character'' 8 None)"
    by (simp_all add: row77_def world_owned_def char77_def cred_def)
  from pull_character_conflict [where e=env0 and info=row77 and cid="PInt 77" and w=world_owned
      and c=char77 and a=8 and self="cred 1 1001 ''Character'' 8 None", OF h] h show ?thesis
    by (simp add: world_owned_def world0_def cred_def)
qed

section \<open>Rollback of a new identity\<close>

text \<open>
  C6. When the data fetch of lines 122 to 125 raises, \<^verbatim>\<open>pull_character\<close> raises
  the same exception. An identity row created by this call is gone from the store
  when it does; a row that existed before (with no owner, or owned by the
  credential's owner, so that the fetch is reached) is still there, unchanged.
\<close>

theorem pull_character_rollback:
  assumes "info ''characterID'' = Some cid"
    and "fst (character_view e self info cid w) = Inl x"
  shows "(Characters w cid = None \<longrightarrow>
            fst (pull_character e info self w) = Inl x \<and>
            Characters (snd (snd (pull_character e info self w))) cid = None \<and>
            store (snd (snd (pull_character e info self w))) = store w) \<and>
         (\<forall>c. Characters w cid = Some c \<and> (char_owner c = None \<or> char_owner c = Some (owner self)) \<longrightarrow>
            fst (pull_character e info self w) = Inl x \<and>
            Characters (snd (snd (pull_character e info self w))) cid = Some c \<and>
            store (snd (snd (pull_character e info self w))) = store w)"
proof -
  have v: "view_of e self info cid = Inl x"
    using assms(2) by (simp add: character_view_eq)
  have "conf (owner self) w cid = None \<Longrightarrow>
          pull_character e info self w =
            (Inl x, self, w\<lparr>logged := logged w @ view_log self @
                      [(''warning'', ''An error occured while querying data for key %s.'')]\<rparr>)"
    using pull_character_noconf_eq [where info=info and cid=cid and self=self and w=w and e=e, OF assms(1)] v
    by simp
  moreover have "Characters w cid = None \<Longrightarrow> conf (owner self) w cid = None"
    by (simp add: conf_def)
  moreover have "Characters w cid = Some c \<Longrightarrow> char_owner c = None \<or> char_owner c = Some (owner self)
     \<Longrightarrow> conf (owner self) w cid = None" for c
    by (auto simp: conf_def)
  ultimately show ?thesis by auto
qed

lemma env0_fields:
  "recommended_key_kind env0 = ''Character''"
  "CharacterSheet_mask env0 = 8"
  "CharacterInfoPublic_mask env0 = 1"
  "has_access env0 (EVECharacterKeyMask a) m = (and a m = m)"
  "has_access env0 (EVECorporationKeyMask a) m = (and a m = m)"
  "CharacterSheet env0 k c i = (if i = PInt 77 then Inr sheet77 else Inl RemoteError)"
  "CharacterInfoPublic env0 k c i = Inl RemoteError"
  "utcnow env0 = 100"
  by (simp_all add: env0_def)

lemma cred_fields:
  "cred_id (cred n k t m v) = n" "key (cred n k t m v) = k" "code (cred n k t m v) = ''secret''"
  "kind (cred n k t m v) = Some t" "raw_mask (cred n k t m v) = m" "owner (cred n k t m v) = 7"
  "violation (cred n k t m v) = v" "verified (cred n k t m v) = False"
  by (simp_all add: cred_def)

theorem pull_character_rollback_witness:
  "row78 ''characterID'' = Some (PInt 78) \<and>
   fst (character_view env0 (cred 1 1001 ''Character'' 8 None) row78 (PInt 78) world0) = Inl RemoteError \<and>
   Characters world0 (PInt 78) = None \<and>
   fst (pull_character env0 row78 (cred 1 1001 ''Character'' 8 None) world0) = Inl RemoteError \<and>
   Characters (snd (snd (pull_character env0 row78 (cred 1 1001 ''Character'' 8 None) world0))) (PInt 78) = None \<and>
   fst (character_view env0 (cred 1 1001 ''Character'' 8 None) row78 (PInt 78) world_known) = Inl RemoteError \<and>
   Characters world_known (PInt 78) = Some char78 \<and> char_owner char78 = None \<and>
   fst (pull_character env0 row78 (cred 1 1001 ''Character'' 8 None) world_known) = Inl RemoteError \<and>
   Characters (snd (snd (pull_character env0 row78 (cred 1 1001 ''Character'' 8 None) world_known))) (PInt 78) =
     Some char78"
proof -
  have id: "row78 ''characterID'' = Some (PInt 78)" by (simp add: row78_def)
  have v: "fst (character_view env0 (cred 1 1001 ''Character'' 8 None) row78 (PInt 78) w) = Inl RemoteError" for w
    by (simp add: character_view_eq view_of_def known_kind_def key_mask_of_def cred_fields env0_fields)
  have k: "Characters world0 (PInt 78) = None" "Characters world_known (PInt 78) = Some char78"
    "char_owner char78 = None"
    by (simp_all add: world0_def world_known_def char78_def new_character_def)
  from pull_character_rollback [where info=row78 and cid="PInt 78" and e=env0 and w=world0
      and self="cred 1 1001 ''Character'' 8 None" and x=RemoteError, OF id v]
    pull_character_rollback [where info=row78 and cid="PInt 78" and e=env0 and w=world_known
      and self="cred 1 1001 ''Character'' 8 None" and x=RemoteError, OF id v]
  show ?thesis using id v k by simp
qed

section \<open>Failures of the key info fetch\<close>

text \<open>
  C7. For a credential that is not a Corporation key, when the key info fetch
  fails with an HTTP error other than 403, \<^verbatim>\<open>pull\<close> returns \<^verbatim>\<open>None\<close>; the
  credential in memory is as before the call, and so is the store but for one
  more record in the log, which reports the failed call: no row is written or
  deleted.
\<close>

theorem pull_http_error:
  assumes "kind self \<noteq> Some ''Corporation''"
    and "APIKeyInfo e (key self) (code self) = Inl (HTTPError status)"
    and "status \<noteq> 403"
  shows "pull e self w =
           (Inr None, self, w\<lparr>logged := logged w @ [(''error'', ''Unable to call: APIKeyInfo(%d)'')]\<rparr>)"
  using assms by (simp add: pull_def log_msg_def)

theorem pull_http_error_witness:
  "kind (cred 4 1004 ''Character'' 8 None) \<noteq> Some ''Corporation'' \<and>
   APIKeyInfo env0 (key (cred 4 1004 ''Character'' 8 None)) (code (cred 4 1004 ''Character'' 8 None)) =
     Inl (HTTPError 500) \<and>
   (500::int) \<noteq> 403 \<and>
   pull env0 (cred 4 1004 ''Character'' 8 None) (save (cred 4 1004 ''Character'' 8 None) world0) =
     (Inr None, cred 4 1004 ''Character'' 8 None,
      (save (cred 4 1004 ''Character'' 8 None) world0)
        \<lparr>logged := [(''error'', ''Unable to call: APIKeyInfo(%d)'')]\<rparr>)"
proof -
  have h: "kind (cred 4 1004 ''Character'' 8 None) \<noteq> Some ''Corporation''"
    "APIKeyInfo env0 (key (cred 4 1004 ''Character'' 8 None)) (code (cred 4 1004 ''Character'' 8 None)) =
     Inl (HTTPError 500)" "(500::int) \<noteq> 403"
    by (simp_all add: cred_fields env0_def)
  from pull_http_error [OF h, of "save (cred 4 1004 ''Character'' 8 None) world0"] h
  show ?thesis by (simp add: save_def world0_def)
qed

section \<open>Key info with a successful fetch\<close>

lemma pull_key_info:
  assumes "kind self \<noteq> Some ''Corporation''"
    and "APIKeyInfo e (key self) (code self) = Inr result"
    and "py_int (accessMask result) = Some m"
    and "case key_expires result of None \<Rightarrow> True | Some s \<Rightarrow> s = [] \<or> strptime e s \<noteq> None"
  shows "pull e self w =
          (case set_verified e
                  (self\<lparr>raw_mask := m, kind := Some (key_type result),
                        expires := (case key_expires result of
                                      None \<Rightarrow> None
                                    | Some s \<Rightarrow> if s = [] then None else strptime e s)\<rparr>) w of
             (Inl x, self2, w2) \<Rightarrow> (Inl x, self2, w2)
           | (Inr u, self2, w2) \<Rightarrow> reconcile e result self2 w2)"
proof -
  have "set_key_info e result self =
          (Inr (), self\<lparr>raw_mask := m, kind := Some (key_type result),
                        expires := (case key_expires result of
                                      None \<Rightarrow> None
                                    | Some s \<Rightarrow> if s = [] then None else strptime e s)\<rparr>)"
    using assms(3,4) by (auto simp: set_key_info_def Let_def split: option.splits)
  then show ?thesis using assms(1,2) by (simp add: pull_def)
qed


lemma env0_api:
  "APIKeyInfo env0 1001 c = Inr key_info_1001"
  "APIKeyInfo env0 1002 c = Inl (HTTPError 403)"
  "APIKeyInfo env0 1003 c = Inr key_info_1003"
  "APIKeyInfo env0 1004 c = Inl (HTTPError 500)"
  "APIKeyInfo env0 1005 c = Inr key_info_1005"
  "strptime env0 ''2030-01-01 00:00:00'' = Some 1893456000"
  by (simp_all add: env0_def)



section \<open>A key info without identities\<close>

text \<open>
  C8 (as the code has it). When the fetch succeeds with a well-formed key info
  whose identity list is empty, \<^verbatim>\<open>pull\<close> logs the anomaly and returns the
  credential with mask, kind, expiry and verified flag set from the key info, in
  memory only: key, code, owner, violation and modified are as before the call,
  nothing is saved and the store is as before but for the log. (Kind among
  Account, Character and Corporation where the recommended mask is an integer.)
\<close>

theorem pull_no_identities:
  assumes "kind self \<noteq> Some ''Corporation''"
    and "APIKeyInfo e (key self) (code self) = Inr result"
    and "py_int (accessMask result) = Some m"
    and "case key_expires result of None \<Rightarrow> True | Some s \<Rightarrow> s = [] \<or> strptime e s \<noteq> None"
    and "characters_row result = []"
  shows
    "let self1 = self\<lparr>raw_mask := m, kind := Some (key_type result),
                      expires := (case key_expires result of
                                    None \<Rightarrow> None
                                  | Some s \<Rightarrow> if s = [] then None else strptime e s)\<rparr>;
         acceptable = (key_type result = recommended_key_kind e \<or>
                       recommended_key_kind e = ''Character'' \<and> key_type result = ''Account'');
         km = (if key_type result = ''Corporation'' then EVECorporationKeyMask m
               else EVECharacterKeyMask m)
     in (\<forall>r. py_int (recommended_key_mask e) = Some r \<and>
              key_type result \<in> {''Account'', ''Character'', ''Corporation''} \<longrightarrow>
           pull e self w =
             (Inr (Some (self1\<lparr>verified := (has_access e km r \<and> acceptable)\<rparr>)),
              self1\<lparr>verified := (has_access e km r \<and> acceptable)\<rparr>,
              w\<lparr>logged := logged w @ [(''error'', ''No characters returned for key %d?'')]\<rparr>)) \<and>
        (py_int (recommended_key_mask e) = None \<longrightarrow>
           pull e self w =
             (Inr (Some (self1\<lparr>verified := False\<rparr>)), self1\<lparr>verified := False\<rparr>,
              w\<lparr>logged := logged w @
                   [(''warning'', ''core.recommended_key_mask MUST be an integer.''),
                    (''error'', ''No characters returned for key %d?'')]\<rparr>))"
proof -
  define self1 where "self1 = self\<lparr>raw_mask := m, kind := Some (key_type result),
                      expires := (case key_expires result of
                                    None \<Rightarrow> None
                                  | Some s \<Rightarrow> if s = [] then None else strptime e s)\<rparr>"
  note p = pull_key_info [OF assms(1-4), of w, folded self1_def]
  have bad: "py_int (recommended_key_mask e) = None \<Longrightarrow>
      pull e self w = (Inr (Some (self1\<lparr>verified := False\<rparr>)), self1\<lparr>verified := False\<rparr>,
              w\<lparr>logged := logged w @
                   [(''warning'', ''core.recommended_key_mask MUST be an integer.''),
                    (''error'', ''No characters returned for key %d?'')]\<rparr>)"
    by (simp add: p set_verified_eq reconcile_def assms(5) log_msg_def)
  have good: "py_int (recommended_key_mask e) = Some r \<Longrightarrow>
      key_type result \<in> {''Account'', ''Character'', ''Corporation''} \<Longrightarrow>
      pull e self w =
        (Inr (Some (self1\<lparr>verified :=
         (has_access e (if key_type result = ''Corporation'' then EVECorporationKeyMask m
               else EVECharacterKeyMask m) r \<and>
          (key_type result = recommended_key_kind e \<or>
                       recommended_key_kind e = ''Character'' \<and> key_type result = ''Account''))\<rparr>)),
         self1\<lparr>verified :=
         (has_access e (if key_type result = ''Corporation'' then EVECorporationKeyMask m
               else EVECharacterKeyMask m) r \<and>
          (key_type result = recommended_key_kind e \<or>
                       recommended_key_kind e = ''Character'' \<and> key_type result = ''Account''))\<rparr>,
         w\<lparr>logged := logged w @ [(''error'', ''No characters returned for key %d?'')]\<rparr>)" for r
  proof -
    assume r: "py_int (recommended_key_mask e) = Some r"
      and k: "key_type result \<in> {''Account'', ''Character'', ''Corporation''}"
    have known: "known_kind self1"
      using k by (auto simp: self1_def known_kind_def)
    have km: "key_mask_of self1 = (if key_type result = ''Corporation'' then EVECorporationKeyMask m
               else EVECharacterKeyMask m)"
      by (simp add: key_mask_of_def self1_def)
    have ka: "kind_acceptable e self1 = (key_type result = recommended_key_kind e \<or>
                       recommended_key_kind e = ''Character'' \<and> key_type result = ''Account'')"
      by (simp add: kind_acceptable_iff self1_def)
    show ?thesis
      by (simp add: p set_verified_eq(2) [OF r known] km ka reconcile_def assms(5) log_msg_def)
  qed
  show ?thesis
    unfolding Let_def self1_def [symmetric]
    using bad good by (auto simp del: insert_iff)
qed

theorem pull_no_identities_witness:
  "kind (cred 5 1005 ''Character'' 0 None) \<noteq> Some ''Corporation'' \<and>
   APIKeyInfo env0 (key (cred 5 1005 ''Character'' 0 None)) (code (cred 5 1005 ''Character'' 0 None)) =
     Inr key_info_1005 \<and>
   py_int (accessMask key_info_1005) = Some 8 \<and>
   key_expires key_info_1005 = Some [] \<and>
   characters_row key_info_1005 = [] \<and>
   py_int (recommended_key_mask env0) = Some 8 \<and>
   key_type key_info_1005 = ''Account'' \<and>
   pull env0 (cred 5 1005 ''Character'' 0 None) (save (cred 5 1005 ''Character'' 0 None) world0) =
     (Inr (Some ((cred 5 1005 ''Account'' 8 None)\<lparr>verified := True\<rparr>)),
      (cred 5 1005 ''Account'' 8 None)\<lparr>verified := True\<rparr>,
      (save (cred 5 1005 ''Character'' 0 None) world0)
        \<lparr>logged := [(''error'', ''No characters returned for key %d?'')]\<rparr>)"
proof -
  have h: "kind (cred 5 1005 ''Character'' 0 None) \<noteq> Some ''Corporation''"
    "APIKeyInfo env0 (key (cred 5 1005 ''Character'' 0 None)) (code (cred 5 1005 ''Character'' 0 None)) =
     Inr key_info_1005"
    "py_int (accessMask key_info_1005) = Some 8"
    "case key_expires key_info_1005 of None \<Rightarrow> True | Some s \<Rightarrow> s = [] \<or> strptime env0 s \<noteq> None"
    "characters_row key_info_1005 = []"
    by (simp_all add: cred_fields env0_api key_info_1005_def py_int_simps)
  have k: "key_expires key_info_1005 = Some []" "key_type key_info_1005 = ''Account''"
    by (simp_all add: key_info_1005_def)
  from pull_no_identities [OF h, of "save (cred 5 1005 ''Character'' 0 None) world0"]
  show ?thesis using h
    by (simp add: Let_def env0_cfg k env0_fields) (simp add: cred_def save_def world0_def)
qed

text \<open>
  The claim as written fails: the record returned differs from the record before
  the call in its mask, its kind and its verified flag.
\<close>

theorem pull_no_identities_counterexample:
  "characters_row key_info_1005 = [] \<and>
   APIKeyInfo env0 (key (cred 5 1005 ''Character'' 0 None)) (code (cred 5 1005 ''Character'' 0 None)) =
     Inr key_info_1005 \<and>
   fst (pull env0 (cred 5 1005 ''Character'' 0 None) world0) =
     Inr (Some ((cred 5 1005 ''Account'' 8 None)\<lparr>verified := True\<rparr>)) \<and>
   raw_mask (cred 5 1005 ''Character'' 0 None) \<noteq> raw_mask ((cred 5 1005 ''Account'' 8 None)\<lparr>verified := True\<rparr>) \<and>
   kind (cred 5 1005 ''Character'' 0 None) \<noteq> kind ((cred 5 1005 ''Account'' 8 None)\<lparr>verified := True\<rparr>) \<and>
   verified (cred 5 1005 ''Character'' 0 None) \<noteq> verified ((cred 5 1005 ''Account'' 8 None)\<lparr>verified := True\<rparr>)"
proof -
  have m: "py_int (accessMask key_info_1005) = Some 8"
    by (simp add: key_info_1005_def py_int_simps)
  have k: "key_expires key_info_1005 = Some []" "key_type key_info_1005 = ''Account''"
    "characters_row key_info_1005 = []"
    by (simp_all add: key_info_1005_def)
  show ?thesis
    by (simp add: env0_api cred_fields pull_def set_key_info_def set_verified_def m k
        env0_cfg mask_has_access_eq known_kind_def key_mask_of_def env0_fields
        kind_acceptable_iff reconcile_def)
       (simp add: cred_def)
qed

section \<open>A revoked key\<close>

lemma exclusive_iff:
  "attached self c \<and> length (filter (\<lambda>k. k \<noteq> cred_id self) (credentials c)) = 0 \<longleftrightarrow>
     set (credentials c) = {cred_id self}"
  by (auto simp: attached_def filter_empty_conv)

lemma delete_row:
  "(if attached self c \<and> length (filter (\<lambda>k. k \<noteq> cred_id self) (credentials c)) = 0
    then Some (detach self w c) else Some c) =
   Some (c\<lparr>char_owner := (if set (credentials c) = {cred_id self} then None else char_owner c),
           credentials := (if set (credentials c) = {cred_id self}
                           then removeAll (cred_id self) (credentials c) else credentials c)\<rparr>)"
proof (cases "set (credentials c) = {cred_id self}")
  case True
  then have cond: "attached self c \<and> length (filter (\<lambda>k. k \<noteq> cred_id self) (credentials c)) = 0"
    using exclusive_iff [of self c] by blast
  show ?thesis unfolding if_P [OF cond]
    by (simp add: True detach_def other_live_credential_def list_ex_iff)
next
  case False
  then have cond: "\<not> (attached self c \<and> length (filter (\<lambda>k. k \<noteq> cred_id self) (credentials c)) = 0)"
    using exclusive_iff [of self c] by blast
  show ?thesis unfolding if_not_P [OF cond] by (simp add: False)
qed

lemma delete_fields:
  "Credentials (delete self w) = (Credentials w)(cred_id self := None)"
  "Characters (delete self w) i =
     map_option (\<lambda>c. c\<lparr>char_owner := (if set (credentials c) = {cred_id self} then None else char_owner c),
                        credentials := removeAll (cred_id self) (credentials c)\<rparr>) (Characters w i)"
  "Corporations (delete self w) = Corporations w"
  "Alliances (delete self w) = Alliances w"
  "duplicates (delete self w) = duplicates w"
  "grants (delete self w) = grants w"
  "logged (delete self w) = logged w"
proof -
  show "Characters (delete self w) i =
     map_option (\<lambda>c. c\<lparr>char_owner := (if set (credentials c) = {cred_id self} then None else char_owner c),
                        credentials := removeAll (cred_id self) (credentials c)\<rparr>) (Characters w i)"
  proof (cases "Characters w i")
    case None
    then show ?thesis by (simp add: delete_def document_delete_def)
  next
    case (Some c)
    show ?thesis
      unfolding delete_def delete_row
      by (simp add: document_delete_def Some)
  qed
qed (simp_all add: delete_def document_delete_def)

text \<open>
  C2. For a credential that is not a Corporation key, when the key info fetch
  fails with HTTP status 403, \<^verbatim>\<open>pull\<close> returns \<^verbatim>\<open>None\<close> and the credential's row is
  gone from the store. Every identity loses the credential from its credential
  list; an identity whose list held this credential and no other has its owner
  cleared, every other identity keeps its owner. No other row changes.
\<close>

theorem pull_revoked_key:
  assumes "kind self \<noteq> Some ''Corporation''"
    and "APIKeyInfo e (key self) (code self) = Inl (HTTPError 403)"
  shows "fst (pull e self w) = Inr None \<and>
         Credentials (snd (snd (pull e self w))) = (Credentials w)(cred_id self := None) \<and>
         (\<forall>i. Characters (snd (snd (pull e self w))) i =
                map_option
                  (\<lambda>c. c\<lparr>char_owner := (if set (credentials c) = {cred_id self} then None
                                           else char_owner c),
                          credentials := removeAll (cred_id self) (credentials c)\<rparr>)
                  (Characters w i)) \<and>
         Corporations (snd (snd (pull e self w))) = Corporations w \<and>
         Alliances (snd (snd (pull e self w))) = Alliances w"
  using assms by (simp add: pull_def delete_fields log_msg_def)

theorem pull_revoked_key_witness:
  "kind (cred 2 1002 ''Character'' 8 None) \<noteq> Some ''Corporation'' \<and>
   APIKeyInfo env0 (key (cred 2 1002 ''Character'' 8 None)) (code (cred 2 1002 ''Character'' 8 None)) =
     Inl (HTTPError 403) \<and>
   fst (pull env0 (cred 2 1002 ''Character'' 8 None) world_two) = Inr None \<and>
   Credentials (snd (snd (pull env0 (cred 2 1002 ''Character'' 8 None) world_two))) 2 = None \<and>
   Credentials (snd (snd (pull env0 (cred 2 1002 ''Character'' 8 None) world_two))) 9 =
     Some (cred 9 1009 ''Character'' 8 None) \<and>
   Characters (snd (snd (pull env0 (cred 2 1002 ''Character'' 8 None) world_two))) (PInt 77) =
     Some (new_character\<lparr>char_owner := None, credentials := []\<rparr>) \<and>
   Characters (snd (snd (pull env0 (cred 2 1002 ''Character'' 8 None) world_two))) (PInt 78) =
     Some (new_character\<lparr>char_owner := Some 7, credentials := [9]\<rparr>)"
proof -
  have h: "kind (cred 2 1002 ''Character'' 8 None) \<noteq> Some ''Corporation''"
    "APIKeyInfo env0 (key (cred 2 1002 ''Character'' 8 None)) (code (cred 2 1002 ''Character'' 8 None)) =
     Inl (HTTPError 403)"
    by (simp_all add: cred_fields env0_api)
  from pull_revoked_key [OF h, of world_two] h show ?thesis
    by (simp add: world_two_def world0_def cred_fields new_character_def)
qed

section \<open>The name of the alliance\<close>





section \<open>The loop over the rows and what follows it\<close>

lemma evaluated_not_Character:
  "violation s \<noteq> Some ''Character'' \<Longrightarrow> evaluated e s \<noteq> Some ''Character''"
  by (auto simp: evaluated_def split: option.splits)

lemma evaluated_cases:
  "evaluated e (s\<lparr>violation := None\<rparr>) \<in> {None, Some ''Kind'', Some ''Mask''}"
  by (auto simp: evaluated_def split: option.splits)

lemma env0_api_1006: "APIKeyInfo env0 1006 c = Inr key_info_1006"
  by (simp add: env0_def)

lemma membership_sheet77: "membership_of sheet77 = Inr (PInt 5, Some (PInt 9))"
  by (simp add: membership_of_def corporation_name_of_def attr_def alliance_of_def sheet77_def)

lemma merged_sheet77: "\<exists>k. merged_of env0 (cred n k' t m v) sheet77 = Inr k"
  by (simp add: merged_of_def membership_sheet77)
     (simp add: merge_info_def sheet77_def attr_def Let_def)

lemma view_row77:
  "view_of env0 (cred n k' ''Character'' 8 v) row77 (PInt 77) = Inr sheet77"
  by (simp add: view_of_def known_kind_def key_mask_of_def cred_fields env0_fields)

lemma row77_id: "row77 ''characterID'' = Some (PInt 77)" "row77 ''corporationName'' \<noteq> None"
  by (simp_all add: row77_def)

lemma row_outcome_row77:
  "cf (PInt 77) = None \<Longrightarrow> row_outcome env0 (cred n k' ''Character'' 8 v) cf row77 = Pulls (PInt 77)"
  using merged_sheet77 [of n k' "''Character''" 8 v]
  by (auto simp: row_outcome_def view_row77 row77_id)


lemma view_of_verified [simp]: "view_of e (self\<lparr>verified := v\<rparr>) info cid = view_of e self info cid"
  by (simp add: view_of_def known_kind_def key_mask_of_def)

lemma merge_info_verified [simp]:
  "merge_info e (self\<lparr>verified := v\<rparr>) info corp ally char = merge_info e self info corp ally char"
  by (simp add: merge_info_def Let_def cong: sum.case_cong option.case_cong)

lemma merged_of_verified [simp]: "merged_of e (self\<lparr>verified := v\<rparr>) info = merged_of e self info"
  by (simp add: merged_of_def cong: sum.case_cong option.case_cong)

lemma row_outcome_verified [simp]:
  "row_outcome e (self\<lparr>verified := v\<rparr>) cf info = row_outcome e self cf info"
  by (simp add: row_outcome_def cong: sum.case_cong option.case_cong)

lemma row_delta_verified [simp]:
  "row_delta e (self\<lparr>verified := v\<rparr>) cf info = row_delta e self cf info"
  by (simp add: row_delta_def cong: sum.case_cong option.case_cong)

lemma rows_outcome_verified [simp]:
  "rows_outcome e (self\<lparr>verified := v\<rparr>) cf rows = rows_outcome e self cf rows"
  by (induction rows) (simp_all cong: outcome.case_cong)

lemma rows_delta_verified [simp]:
  "rows_delta e (self\<lparr>verified := v\<rparr>) cf rows = rows_delta e self cf rows"
  by (induction rows) (simp_all cong: outcome.case_cong)

lemma pull_rows_fst:
  assumes "rows_outcome e s (conf (owner s) w) rows = (None, c, p)"
  shows "fst (pull_rows e rows s ok pulled w) = Inr (ok \<and> \<not> c, pulled \<union> p)"
proof -
  obtain res s' w' where pr: "pull_rows e rows s ok pulled w = (res, s', w')"
    by (cases "pull_rows e rows s ok pulled w") auto
  from pull_rows_summary [OF pr assms] show ?thesis by (simp add: pr)
qed

text \<open>Only the clock differs between the two calls.\<close>

lemma clock_cfg [simp]:
  "kind_acceptable (e\<lparr>utcnow := t\<rparr>) s = kind_acceptable e s"
  "set_key_info (e\<lparr>utcnow := t\<rparr>) result s = set_key_info e result s"
  "view_of (e\<lparr>utcnow := t\<rparr>) s info cid = view_of e s info cid"
  by (simp_all add: kind_acceptable_def set_key_info_def view_of_def Let_def split: option.split)

lemma title_names_clock [simp]: "title_names (e\<lparr>utcnow := t\<rparr>) rs = title_names e rs"
  by (induction rs) (simp_all split: option.split pyval.split sum.split)

lemma merge_info_clock [simp]:
  "merge_info (e\<lparr>utcnow := t\<rparr>) s info corp ally char = merge_info e s info corp ally char"
  by (simp add: merge_info_def Let_def split: option.split sum.split pyval.split)

lemma merged_of_clock [simp]: "merged_of (e\<lparr>utcnow := t\<rparr>) s info = merged_of e s info"
  by (simp add: merged_of_def cong: sum.case_cong prod.case_cong)

lemma row_clock [simp]:
  "row_outcome (e\<lparr>utcnow := t\<rparr>) s cf info = row_outcome e s cf info"
  "row_delta (e\<lparr>utcnow := t\<rparr>) s cf info = row_delta e s cf info"
  by (simp_all add: row_outcome_def row_delta_def cong: option.case_cong sum.case_cong)

lemma rows_clock [simp]:
  "rows_outcome (e\<lparr>utcnow := t\<rparr>) s cf rows = rows_outcome e s cf rows"
  "rows_delta (e\<lparr>utcnow := t\<rparr>) s cf rows = rows_delta e s cf rows"
  by (induction rows) (simp_all cong: outcome.case_cong)

lemma evaluated_clock [simp]: "evaluated (e\<lparr>utcnow := t\<rparr>) s = evaluated e s"
  by (simp add: evaluated_def cong: option.case_cong if_cong)

lemma set_verified_clock [simp]: "set_verified (e\<lparr>utcnow := t\<rparr>) s w = set_verified e s w"
  by (cases "py_int (recommended_key_mask e)") (simp_all add: set_verified_def mask_has_access_eq)

text \<open>What the key info assigns does not depend on the credential.\<close>

lemma set_key_info_again:
  assumes "set_key_info e result s = (Inr u, sk)"
  shows "sk = s\<lparr>raw_mask := raw_mask sk, kind := kind sk, expires := expires sk\<rparr>"
    and "set_key_info e result s' =
           (Inr (), s'\<lparr>raw_mask := raw_mask sk, kind := kind sk, expires := expires sk\<rparr>)"
  using assms by (auto simp: set_key_info_def Let_def split: option.splits if_splits)

lemma set_key_info_fails:
  "set_key_info e result s = (Inl x, sk) \<Longrightarrow> fst (set_key_info e result s') = Inl x"
  by (auto simp: set_key_info_def Let_def split: option.splits if_splits)

lemma set_verified_fails:
  assumes "set_verified e s w = (Inl x, s2, w2)"
  shows "\<not> known_kind s \<and> py_int (recommended_key_mask e) \<noteq> None \<and> s2 = s \<and> store w2 = store w"
proof (cases "py_int (recommended_key_mask e)")
  case None
  from set_verified_eq(1) [OF None, of s w] assms show ?thesis by simp
next
  case (Some r)
  show ?thesis
  proof (cases "known_kind s")
    case True
    from set_verified_eq(2) [OF Some True, of w] assms show ?thesis by simp
  next
    case False
    from set_verified_eq(3) [OF Some False, of w] assms show ?thesis by (simp add: Some False)
  qed
qed

lemma same_state_store: "store a = store b \<Longrightarrow> same_state a b"
proof -
  assume eq: "store a = store b"
  have "Credentials (store a) = Credentials (store b)" "Characters (store a) = Characters (store b)"
    "Corporations (store a) = Corporations (store b)" "Alliances (store a) = Alliances (store b)"
    "duplicates (store a) = duplicates (store b)" "grants (store a) = grants (store b)"
    by (simp_all only: eq)
  then show ?thesis by (simp add: same_state_def)
qed

lemma row_cong:
  assumes "\<And>cid. r ''characterID'' = Some cid \<Longrightarrow> cf' cid = cf cid"
  shows "row_outcome e s cf' r = row_outcome e s cf r"
    and "row_delta e s cf' r = row_delta e s cf r"
  using assms by (cases "r ''characterID''"; simp add: row_outcome_def row_delta_def)+

lemma rows_cong:
  assumes "\<And>r cid. r \<in> set rows \<Longrightarrow> r ''corporationName'' \<noteq> None \<Longrightarrow>
             r ''characterID'' = Some cid \<Longrightarrow> cf' cid = cf cid"
  shows "rows_outcome e s cf' rows = rows_outcome e s cf rows \<and>
         rows_delta e s cf' rows = rows_delta e s cf rows"
  using assms
proof (induction rows)
  case Nil
  show ?case by simp
next
  case (Cons r rs)
  have "rows_outcome e s cf' rs = rows_outcome e s cf rs \<and>
        rows_delta e s cf' rs = rows_delta e s cf rs"
  proof (rule Cons.IH)
    fix r' cid
    assume "r' \<in> set rs" "r' ''corporationName'' \<noteq> None" "r' ''characterID'' = Some cid"
    then show "cf' cid = cf cid" using Cons.prems [of r' cid] by simp
  qed
  then have ih: "rows_outcome e s cf' rs = rows_outcome e s cf rs"
    "rows_delta e s cf' rs = rows_delta e s cf rs"
    by simp_all
  show ?case
  proof (cases "r ''corporationName'' = None")
    case True
    then show ?thesis by (simp add: ih)
  next
    case False
    have agree: "\<And>cid. r ''characterID'' = Some cid \<Longrightarrow> cf' cid = cf cid"
      using Cons.prems [of r] False by simp
    have "row_outcome e s cf' r = row_outcome e s cf r"
      using agree by (rule row_cong(1))
    moreover have "row_delta e s cf' r = row_delta e s cf r"
      using agree by (rule row_cong(2))
    ultimately show ?thesis by (simp add: ih cong: outcome.case_cong)
  qed
qed

lemma d_chars_rows_delta_conf:
  "cf i \<noteq> None \<Longrightarrow> d_chars (rows_delta e s cf rows) i = None"
proof (induction rows)
  case Nil
  show ?case by (simp add: no_delta_def)
next
  case (Cons r rs)
  have r: "d_chars (row_delta e s cf r) i = None"
  proof (cases "d_chars (row_delta e s cf r) i")
    case None
    then show ?thesis .
  next
    case (Some cw)
    from d_chars_row_delta [OF Some] Cons.prems show ?thesis by simp
  qed
  show ?case
    using Cons r by (cases "row_outcome e s cf r") (simp_all add: then_write_def)
qed

lemma conf_apply_rows_delta:
  "cf = conf (owner s) w \<Longrightarrow>
   conf (owner s) (apply_delta (cred_id s) (rows_delta e s cf rows) w) = conf (owner s) w"
proof (induction rows arbitrary: w)
  case Nil
  show ?case by simp
next
  case (Cons r rs)
  let ?w1 = "apply_delta (cred_id s) (row_delta e s cf r) w"
  have one: "conf (owner s) ?w1 = conf (owner s) w"
    using conf_apply_row_delta [OF Cons.prems, of e r] by (simp add: fun_eq_iff)
  then have "cf = conf (owner s) ?w1" using Cons.prems by simp
  from Cons.IH [OF this] one
  have two: "conf (owner s) (apply_delta (cred_id s) (rows_delta e s cf rs) ?w1) = conf (owner s) w"
    by simp
  show ?case
    using one two Cons.IH [OF Cons.prems]
    by (cases "row_outcome e s cf r") (simp_all add: apply_then_delta)
qed

text \<open>Nor does the time of the last pull matter to what a row does.\<close>

lemma view_of_modified [simp]: "view_of e (self\<lparr>modified := v\<rparr>) info cid = view_of e self info cid"
  by (simp add: view_of_def known_kind_def key_mask_of_def)

lemma merge_info_modified [simp]:
  "merge_info e (self\<lparr>modified := v\<rparr>) info corp ally char = merge_info e self info corp ally char"
  by (simp add: merge_info_def Let_def cong: sum.case_cong option.case_cong)

lemma merged_of_modified [simp]: "merged_of e (self\<lparr>modified := v\<rparr>) info = merged_of e self info"
  by (simp add: merged_of_def cong: sum.case_cong option.case_cong)

lemma row_outcome_modified [simp]:
  "row_outcome e (self\<lparr>modified := v\<rparr>) cf info = row_outcome e self cf info"
  by (simp add: row_outcome_def cong: sum.case_cong option.case_cong)

lemma row_delta_modified [simp]:
  "row_delta e (self\<lparr>modified := v\<rparr>) cf info = row_delta e self cf info"
  by (simp add: row_delta_def cong: sum.case_cong option.case_cong)

lemma rows_outcome_modified [simp]:
  "rows_outcome e (self\<lparr>modified := v\<rparr>) cf rows = rows_outcome e self cf rows"
  by (induction rows) (simp_all cong: outcome.case_cong)

lemma rows_delta_modified [simp]:
  "rows_delta e (self\<lparr>modified := v\<rparr>) cf rows = rows_delta e self cf rows"
  by (induction rows) (simp_all cong: outcome.case_cong)

text \<open>Evaluating the violation a second time changes nothing.\<close>

lemma evaluated_Character: "violation s = Some ''Character'' \<Longrightarrow> evaluated e s = Some ''Character''"
  by (simp add: evaluated_def split: option.split)

lemma evaluated_idem:
  assumes "violation s' = evaluated e s" and "kind s' = kind s" and "raw_mask s' = raw_mask s"
  shows "evaluated e s' = evaluated e s"
proof (cases "py_int (recommended_key_mask e)")
  case None
  then show ?thesis using assms by (simp add: evaluated_def)
next
  case (Some r)
  have same: "kind_acceptable e s' = kind_acceptable e s" "key_mask_of s' = key_mask_of s"
    using assms by (simp_all add: kind_acceptable_iff key_mask_of_def)
  show ?thesis
  proof (cases "violation s = Some ''Character''")
    case True
    then have "evaluated e s = Some ''Character''" by (rule evaluated_Character)
    then have "violation s' = Some ''Character''" using assms by simp
    then show ?thesis using True by (simp add: evaluated_Character)
  next
    case False
    then have "evaluated e s \<noteq> Some ''Character''" by (rule evaluated_not_Character)
    then have "violation s' \<noteq> Some ''Character''" using assms by simp
    then show ?thesis using False by (simp add: evaluated_def Some same)
  qed
qed

lemma after_rows_frame [simp]:
  "cred_id (after_rows c s) = cred_id s" "key (after_rows c s) = key s" "code (after_rows c s) = code s"
  "kind (after_rows c s) = kind s" "raw_mask (after_rows c s) = raw_mask s"
  "verified (after_rows c s) = verified s" "expires (after_rows c s) = expires s"
  "owner (after_rows c s) = owner s" "modified (after_rows c s) = modified s"
  by (simp_all add: after_rows_def)

lemma saved_as_frame [simp]:
  "cred_id (saved_as e c s) = cred_id s" "key (saved_as e c s) = key s" "code (saved_as e c s) = code s"
  "kind (saved_as e c s) = kind s" "raw_mask (saved_as e c s) = raw_mask s"
  "verified (saved_as e c s) = verified s" "expires (saved_as e c s) = expires s"
  "owner (saved_as e c s) = owner s" "modified (saved_as e c s) = utcnow e"
  "violation (saved_as e c s) = evaluated e (after_rows c s)"
  by (simp_all add: saved_as_def)

lemma saved_as_shape:
  "saved_as e c s = s\<lparr>violation := evaluated e (after_rows c s), modified := utcnow e\<rparr>"
  by (simp add: saved_as_def after_rows_def)

lemma after_rows_saved: "after_rows c (saved_as e c s) = saved_as e c s"
proof (cases c)
  case True
  have "evaluated e (after_rows True s) = Some ''Character''"
    by (rule evaluated_Character) (simp add: after_rows_def)
  then have "violation (saved_as e True s) = Some ''Character''" by simp
  then have "(saved_as e True s)\<lparr>violation := Some ''Character''\<rparr> = saved_as e True s"
    by (cases "saved_as e True s") simp
  then show ?thesis using True by (simp add: after_rows_def [of True])
next
  case False
  have "violation (after_rows False s) \<noteq> Some ''Character''" by (simp add: after_rows_def)
  then have "evaluated e (after_rows False s) \<noteq> Some ''Character''" by (rule evaluated_not_Character)
  then have "violation (saved_as e False s) \<noteq> Some ''Character''" by simp
  then show ?thesis using False by (simp add: after_rows_def [of False "saved_as e False s"])
qed

lemma saved_as_again:
  "saved_as (e\<lparr>utcnow := t\<rparr>) c (saved_as e c s) = (saved_as e c s)\<lparr>modified := t\<rparr>"
proof -
  have "evaluated e (saved_as e c s) = evaluated e (after_rows c s)"
    by (rule evaluated_idem) simp_all
  then have "evaluated e (saved_as e c s) = violation (saved_as e c s)" by simp
  then have "(saved_as e c s)\<lparr>violation := evaluated e (saved_as e c s), modified := t\<rparr> =
             (saved_as e c s)\<lparr>modified := t\<rparr>"
    by (cases "saved_as e c s") simp
  then show ?thesis
    by (simp add: saved_as_def [of "e\<lparr>utcnow := t\<rparr>"] after_rows_saved)
qed

text \<open>The two ends of \<^verbatim>\<open>reconcile\<close>, from the outcome of the rows.\<close>

lemma store_eq_fields:
  assumes "store a = b"
  shows "Credentials a = Credentials b" "Characters a = Characters b"
    "Corporations a = Corporations b" "Alliances a = Alliances b"
    "duplicates a = duplicates b" "grants a = grants b"
proof -
  have "Credentials (store a) = Credentials b" "Characters (store a) = Characters b"
    "Corporations (store a) = Corporations b" "Alliances (store a) = Alliances b"
    "duplicates (store a) = duplicates b" "grants (store a) = grants b"
    by (simp_all only: assms)
  then show "Credentials a = Credentials b" "Characters a = Characters b"
    "Corporations a = Corporations b" "Alliances a = Alliances b"
    "duplicates a = duplicates b" "grants a = grants b"
    by simp_all
qed

lemma reconcile_raises:
  assumes rows: "characters_row result \<noteq> []"
    and ro: "rows_outcome e s (conf (owner s) w) (characters_row result) = (Some ex, c, p)"
  shows "\<exists>w1. reconcile e result s w =
                 (Inl ex, if c then s\<lparr>violation := Some ''Character''\<rparr> else s, w1) \<and>
               store w1 = apply_delta (cred_id s)
                            (rows_delta e s (conf (owner s) w) (characters_row result)) (store w)"
proof -
  obtain res s1 w1 where pr: "pull_rows e (characters_row result) s True {} w = (res, s1, w1)"
    by (cases "pull_rows e (characters_row result) s True {} w") auto
  from pull_rows_summary [OF pr ro]
  have "res = Inl ex" "s1 = (if c then s\<lparr>violation := Some ''Character''\<rparr> else s)"
    "store w1 = apply_delta (cred_id s)
                  (rows_delta e s (conf (owner s) w) (characters_row result)) (store w)"
    by simp_all
  then show ?thesis by (simp add: reconcile_def rows pr)
qed

lemma reconcile_returns:
  assumes rows: "characters_row result \<noteq> []"
    and ro: "rows_outcome e s (conf (owner s) w) (characters_row result) = (None, c, p)"
    and ok: "py_int (recommended_key_mask e) = None \<or> known_kind s"
  defines "wb \<equiv> apply_delta (cred_id s)
                   (rows_delta e s (conf (owner s) w) (characters_row result)) (store w)"
  shows "\<exists>w4. reconcile e result s w = (Inr (Some (saved_as e c s)), saved_as e c s, w4) \<and>
           Credentials w4 = (Credentials w)(cred_id s \<mapsto> saved_as e c s) \<and>
           (\<forall>i. Characters w4 i = Characters (detach_outdated s p wb) i) \<and>
           Corporations w4 = Corporations wb \<and> Alliances w4 = Alliances wb \<and>
           duplicates w4 = duplicates wb \<and>
           grants w4 = grants (revoke_grants s (save (saved_as e c s) (detach_outdated s p wb)))"
proof -
  obtain res s1 w1 where pr: "pull_rows e (characters_row result) s True {} w = (res, s1, w1)"
    by (cases "pull_rows e (characters_row result) s True {} w") auto
  from pull_rows_summary [OF pr ro]
  have res: "res = Inr (\<not> c, p)"
    and s1: "s1 = (if c then s\<lparr>violation := Some ''Character''\<rparr> else s)"
    and st: "store w1 = wb"
    by (simp_all add: wb_def)
  have pr': "pull_rows e (characters_row result) s True {} w = (Inr (\<not> c, p), s1, w1)"
    using pr res by simp
  have s2: "(if \<not> c \<and> violation s1 = Some ''Character'' then s1\<lparr>violation := None\<rparr> else s1) =
            after_rows c s"
    by (simp add: s1 after_rows_def)
  note f = store_eq_fields [OF st]
  have cw: "Credentials wb = Credentials w" by (simp add: wb_def)
  have g: "grants (revoke_grants s (save (saved_as e c s) (detach_outdated s p w1))) =
           grants (revoke_grants s (save (saved_as e c s) (detach_outdated s p wb)))"
    by (rule grants_revoke_cong)
       (simp_all add: f detach_store_cong [OF f(1)] fun_eq_iff cong: option.case_cong if_cong)
  from reconcile_eq [OF rows pr' ok, unfolded s2, folded saved_as_def]
  show ?thesis
    by (simp add: f cw g detach_store_cong [OF f(1)] cong: option.case_cong if_cong)
qed


section \<open>Rows skipped for a missing corporation name\<close>

text \<open>
  C10 (as the code has it). Take a pull whose key info was applied, whose verified
  flag was computed, and whose loop over the rows ended without an exception and
  with \<^verbatim>\<open>allCharsOK\<close> still true, one row at least having been skipped for its
  missing corporation name. Then \<^verbatim>\<open>pull\<close> returns the credential, saved, with a
  violation that is not "Character". A prior "Character" has been cleared, and the
  violation saved is the one \<^verbatim>\<open>eval_violation\<close> then computes: None when the
  configured mask is not an integer, otherwise "Kind" when the kind is not
  acceptable, otherwise "Mask" when the mask does not satisfy the recommended
  one, otherwise None. Every identity attached to the credential and not among
  the pulled ones is detached as spec section 4.5 has it: the credential leaves
  its list, and its owner is cleared unless another live credential is in the
  list. An identity that is not attached to the credential and not among the
  pulled ones is left as it is. The identity of a skipped row that no other,
  non-skipped row reports is not among the pulled ones.
\<close>

theorem pull_skipped_rows:
  assumes "kind self \<noteq> Some ''Corporation''"
    and "APIKeyInfo e (key self) (code self) = Inr result"
    and "set_key_info e result self = (Inr (), self1)"
    and "set_verified e self1 w = (Inr (), self2, w2)"
    and "pull_rows e (characters_row result) self2 True {} w2 = (Inr (True, pulled), self3, w3)"
    and "row \<in> set (characters_row result)"
    and "row ''corporationName'' = None"
  shows "\<exists>self' w'.
           pull e self w = (Inr (Some self'), self', w') \<and>
           Credentials w' (cred_id self) = Some self' \<and>
           violation self' \<noteq> Some ''Character'' \<and>
           (violation self = Some ''Character'' \<longrightarrow>
              violation self' =
                (case py_int (recommended_key_mask e) of
                   None \<Rightarrow> None
                 | Some r \<Rightarrow>
                     if \<not> kind_acceptable e self1 then Some ''Kind''
                     else if \<not> has_access e (key_mask_of self1) r then Some ''Mask''
                     else None)) \<and>
           (\<forall>i c. i \<notin> pulled \<and> Characters w i = Some c \<and> attached self c \<longrightarrow>
                  Characters w' i =
                    Some (c\<lparr>char_owner := (if other_live_credential self w c then char_owner c else None),
                            credentials := removeAll (cred_id self) (credentials c)\<rparr>)) \<and>
           (\<forall>i c. i \<notin> pulled \<and> Characters w i = Some c \<and> \<not> attached self c \<longrightarrow>
                  Characters w' i = Some c) \<and>
           (\<forall>i. row ''characterID'' = Some i \<and>
                (\<forall>r\<in>set (characters_row result).
                    r ''corporationName'' \<noteq> None \<longrightarrow> r ''characterID'' \<noteq> Some i) \<longrightarrow>
                i \<notin> pulled)"
proof -
  let ?rows = "characters_row result"
  have rows: "?rows \<noteq> []" using assms(6) by auto
  have p: "pull e self w = reconcile e result self2 w2"
    using assms(1-4) by (simp add: pull_def)
  note f1 = set_key_info_frame [OF assms(3)]
  from set_verified_frame [OF assms(4)] obtain v where
    cfg: "py_int (recommended_key_mask e) = None \<or> known_kind self1"
    and s2: "self2 = self1\<lparr>verified := v\<rparr>" and st2: "store w2 = store w"
    by blast
  have k2: "py_int (recommended_key_mask e) = None \<or> known_kind self2"
    using cfg by (simp add: s2 known_kind_def)
  have v2: "violation self2 = violation self" "cred_id self2 = cred_id self"
    using f1 by (simp_all add: s2)
  note fw2 = store_eq_fields [OF st2]
  have ch2: "Characters w2 = Characters w" and cr2: "Credentials w2 = Credentials w"
    using fw2 by simp_all
  obtain x c pl where ro: "rows_outcome e self2 (conf (owner self2) w2) ?rows = (x, c, pl)"
    by (cases "rows_outcome e self2 (conf (owner self2) w2) ?rows") auto
  note sm = pull_rows_summary [OF assms(5) ro]
  have x: "x = None" using sm by (cases x) auto
  have c: "\<not> c" and pl: "pl = pulled" using sm x by auto
  have s3: "self3 = self2" using sm c by simp
  have st3: "store w3 = apply_delta (cred_id self2) (rows_delta e self2 (conf (owner self2) w2) ?rows) (store w2)"
    using sm by simp
  have cr3: "Credentials w3 = Credentials w"
  proof -
    have "Credentials w3 = Credentials (store w3)" by simp
    then show ?thesis unfolding st3 by (simp add: cr2)
  qed
  have untouched: "Characters w3 i = Characters w i" if "i \<notin> pulled" for i
  proof -
    have "d_chars (rows_delta e self2 (conf (owner self2) w2) ?rows) i = None"
      using rows_delta_chars [OF ro [unfolded x pl], of i] that
      by (cases "d_chars (rows_delta e self2 (conf (owner self2) w2) ?rows) i") auto
    moreover have "Characters w3 i = Characters (store w3) i" by simp
    ultimately show ?thesis unfolding st3 by (simp add: ch2)
  qed
  define s2' where "s2' = (if True \<and> violation self3 = Some ''Character''
                           then self3\<lparr>violation := None\<rparr> else self3)"
  define s4 where "s4 = s2'\<lparr>violation := evaluated e s2', modified := utcnow e\<rparr>"
  from reconcile_eq [OF rows assms(5) k2, folded s2'_def, folded s4_def]
  obtain w4 where
    rec: "reconcile e result self2 w2 = (Inr (Some s4), s4, w4)"
    and cr: "Credentials w4 = (Credentials w3)(cred_id self2 \<mapsto> s4)"
    and chs: "\<forall>i. Characters w4 i = Characters (detach_outdated self2 pulled w3) i"
    by blast
  have nv: "violation s2' \<noteq> Some ''Character''" by (simp add: s2'_def)
  have viol: "violation s4 = evaluated e s2'" by (simp add: s4_def)
  have v4: "violation s4 \<noteq> Some ''Character''"
    using evaluated_not_Character [OF nv] viol by simp
  have v4': "violation s4 =
                (case py_int (recommended_key_mask e) of
                   None \<Rightarrow> None
                 | Some r \<Rightarrow>
                     if \<not> kind_acceptable e self1 then Some ''Kind''
                     else if \<not> has_access e (key_mask_of self1) r then Some ''Mask''
                     else None)"
    if "violation self = Some ''Character''"
  proof -
    have s2'': "s2' = self1\<lparr>verified := v, violation := None\<rparr>"
      using that by (simp add: s2'_def s3 v2) (simp add: s2)
    show ?thesis
      unfolding viol s2''
      by (simp add: evaluated_def kind_acceptable_iff key_mask_of_def
          split: option.split)
  qed
  have att: "attached self2 = attached self"
    by (simp add: attached_def v2 fun_eq_iff)
  have dt: "detach self2 w3 = detach self w"
    by (simp add: fun_eq_iff detach_def other_live_credential_def v2 cr3)
  have det: "Characters w4 i =
               Some (c'\<lparr>char_owner := (if other_live_credential self w c' then char_owner c' else None),
                        credentials := removeAll (cred_id self) (credentials c')\<rparr>)"
    if "i \<notin> pulled" "Characters w i = Some c'" "attached self c'" for i c'
    using chs that untouched [OF that(1)] by (simp add: att dt detach_def)
  have kept: "Characters w4 i = Some c'"
    if "i \<notin> pulled" "Characters w i = Some c'" "\<not> attached self c'" for i c'
    using chs that untouched [OF that(1)] by (simp add: att)
  have skipped: "i \<notin> pulled"
    if "row ''characterID'' = Some i"
      "\<forall>r\<in>set ?rows. r ''corporationName'' \<noteq> None \<longrightarrow> r ''characterID'' \<noteq> Some i" for i
    using rows_outcome_pulled [OF ro, of i] that pl by auto
  have cr4: "Credentials w4 (cred_id self) = Some s4" by (simp add: cr v2)
  show ?thesis
    unfolding p rec
    using v4 v4' cr4 det kept skipped
    by (intro exI [of _ s4] exI [of _ w4]) simp
qed

end
